theory Spec2Isabelle
  imports
    Main
    "HOL-Library.AList"
    "HOL-Library.Char_ord"
    "HOL-Library.List_Lexorder"
    "HOL-Library.Sublist"
begin

section \<open>The image import utility: files, names and directories\<close>

text \<open>
  The script \<^verbatim>\<open>bin/import-images/import.py\<close> works on three directories (the source, the
  destination's \<^verbatim>\<open>images\<close> and \<^verbatim>\<open>thumbs\<close>) and one TOML index file.  A directory is the
  list of its entries in the order the operating system lists them; an entry is a regular
  file with its content, or something else (a subdirectory), which is all that
  \<^verbatim>\<open>is_file()\<close> tells apart.  Names and file contents are strings of 8-bit characters; on
  such names the class \<^verbatim>\<open>\d\<close> of Python's \<^verbatim>\<open>re\<close> is the ten ASCII digits.
\<close>

type_synonym filename = string
type_synonym bytes = string

datatype entry = File bytes | Dir

type_synonym directory = "(filename \<times> entry) list"

fun is_file :: "entry \<Rightarrow> bool" where
  "is_file (File _) = True"
| "is_file Dir = False"

subsection \<open>Decimal digits: \<^verbatim>\<open>\d\<close>, \<^verbatim>\<open>int(...)\<close> and \<^verbatim>\<open>{n:04d}\<close>\<close>

definition isdigit :: "char \<Rightarrow> bool" where
  "isdigit c = (48 \<le> (of_char c :: nat) \<and> (of_char c :: nat) \<le> 57)"

definition digit_value :: "char \<Rightarrow> nat" where
  "digit_value c = of_char c - 48"

definition digit_char :: "nat \<Rightarrow> char" where
  "digit_char d = ''0123456789'' ! d"

text \<open>\<^verbatim>\<open>int(s)\<close> on a string of decimal digits (leading zeros allowed).\<close>

definition int_of_digits :: "string \<Rightarrow> nat" where
  "int_of_digits s = foldl (\<lambda>a c. 10 * a + digit_value c) 0 s"

text \<open>\<^verbatim>\<open>str(n)\<close> for a non-negative integer.\<close>

fun str_nat :: "nat \<Rightarrow> string" where
  "str_nat n = (if n < 10 then [digit_char n] else str_nat (n div 10) @ [digit_char (n mod 10)])"

declare str_nat.simps [simp del]

text \<open>
  The format \<^verbatim>\<open>{n:04d}\<close>: the decimal digits, padded with zeros on the left to a width of
  at least 4.  A number above 9999 keeps all its digits.
\<close>

definition fmt04d :: "nat \<Rightarrow> string" where
  "fmt04d n = replicate (4 - length (str_nat n)) (CHR ''0'') @ str_nat n"

text \<open>Line 204: \<^verbatim>\<open>new_name = f"LOP25-{current_num:04d}.jpeg"\<close>.\<close>

definition new_name :: "nat \<Rightarrow> filename" where
  "new_name current_num = ''LOP25-'' @ fmt04d current_num @ ''.jpeg''"

subsection \<open>\<^verbatim>\<open>find_highest_serial_number\<close> (lines 22 to 45)\<close>

text \<open>
  \<^verbatim>\<open>re.compile(r'LOP25-(\d{4})\.jpeg').match(name)\<close>: the pattern is anchored at the start of
  the name only (\<^verbatim>\<open>match\<close>, not \<^verbatim>\<open>fullmatch\<close>), so anything may follow the extension.  The
  result is group 1, the four digits.
\<close>

definition pattern_match :: "filename \<Rightarrow> string option" where
  "pattern_match name =
     (let g = take 4 (drop 6 name) in
      if take 6 name = ''LOP25-'' \<and> length g = 4 \<and> list_all isdigit g
         \<and> take 5 (drop 10 name) = ''.jpeg''
      then Some g else None)"

text \<open>One turn of the loop of lines 38 to 43.\<close>

definition scan_entry :: "nat \<Rightarrow> filename \<times> entry \<Rightarrow> nat" where
  "scan_entry max_num p =
     (if is_file (snd p) then
        (case pattern_match (fst p) of
           Some g \<Rightarrow> max max_num (int_of_digits g)
         | None \<Rightarrow> max_num)
      else max_num)"

text \<open>The argument is \<open>None\<close> when \<^verbatim>\<open>dest_dir.exists()\<close> is false.\<close>

definition find_highest_serial_number :: "directory option \<Rightarrow> nat" where
  "find_highest_serial_number dest_dir =
     (case dest_dir of
        None \<Rightarrow> 0
      | Some entries \<Rightarrow> foldl scan_entry 0 entries)"

subsection \<open>\<^verbatim>\<open>get_image_files\<close> (lines 48 to 64)\<close>

text \<open>
  \<^verbatim>\<open>Path.glob\<close> with a pattern whose only special character is \<^verbatim>\<open>*\<close>: the star stands for
  any run of characters, the empty one included, and every other character for itself
  (case-sensitive, as on POSIX).
\<close>

function glob_match :: "string \<Rightarrow> string \<Rightarrow> bool" where
  "glob_match [] s = (s = [])"
| "glob_match (p # ps) s =
     (if p = CHR ''*''
      then glob_match ps s \<or> (case s of [] \<Rightarrow> False | _ # cs \<Rightarrow> glob_match (p # ps) cs)
      else (case s of [] \<Rightarrow> False | c # cs \<Rightarrow> c = p \<and> glob_match ps cs))"
  by pat_completeness auto
termination
  by (relation "measure (\<lambda>(p, s). length p + length s)") auto

definition patterns :: "string list" where
  "patterns = [''*.jpeg'', ''*.jpg'', ''*.JPEG'', ''*.JPG'']"

text \<open>
  The argument is the list of the names in the source directory, in the order the
  operating system lists them.  All paths share the parent directory, so
  \<^verbatim>\<open>sorted\<close> orders them by name, character by character.
\<close>

definition get_image_files :: "filename list \<Rightarrow> filename list" where
  "get_image_files source_names =
     sort (concat (map (\<lambda>pattern. filter (glob_match pattern) source_names) patterns))"

section \<open>The per-item steps\<close>

text \<open>
  The calls into the operating system, Pillow, piexif and toml are the environment of the
  script.  What each of them does for a given item is a parameter of the model, and every
  outcome is allowed for every item.  Uncaught exceptions are values of \<open>exn\<close>: the
  interpreter prints a traceback and the process ends with a non-zero status.
\<close>

datatype exn = IsADirectoryError | FileNotFoundError | OSError string | AttributeError

text \<open>
  \<^verbatim>\<open>update_exif_artist\<close> reads the copied file and writes it again in place with
  \<^verbatim>\<open>image.save(image_file, exif=exif_bytes)\<close> (line 87), the last statement of its
  \<^verbatim>\<open>try\<close> block.  Either every call succeeds and the file holds the re-encoded image, or
  a call before the save raises and nothing has been written, or the save itself raises
  after it has opened the file for writing, and the file holds what the save left.
  \<^verbatim>\<open>create_thumbnail\<close> has the same shape, with the save on line 114.
\<close>

datatype exif_outcome =
    ExifSaved bytes
  | ExifFailedEarly string
  | ExifFailedInSave string bytes

datatype thumb_outcome =
    ThumbSaved bytes
  | ThumbFailedEarly string
  | ThumbFailedInSave string bytes

record item_env =
  copy_error :: "string option"
  exif :: "string \<Rightarrow> exif_outcome"
  thumb :: thumb_outcome

text \<open>Create a regular file or replace the entry of that name.\<close>

definition write_file :: "filename \<Rightarrow> bytes \<Rightarrow> directory \<Rightarrow> directory" where
  "write_file name content d = AList.update name (File content) d"

text \<open>Rewrite a regular file that exists; nothing else is touched.\<close>

definition overwrite :: "filename \<Rightarrow> bytes \<Rightarrow> directory \<Rightarrow> directory" where
  "overwrite name content d =
     (case map_of d name of
        Some (File _) \<Rightarrow> AList.update name (File content) d
      | _ \<Rightarrow> d)"

text \<open>
  \<^verbatim>\<open>shutil.copy2(source_file, dest_file)\<close> (line 206).  It raises when the source is a
  directory or when the operating system refuses; the exception is not caught.  When the
  destination path is a directory the file is copied into it, and the listing of the
  collection itself does not change.
\<close>

definition copy2 :: "entry \<Rightarrow> string option \<Rightarrow> filename \<Rightarrow> directory \<Rightarrow> exn + directory" where
  "copy2 src os_error dest_name dest_dir =
     (case src of
        Dir \<Rightarrow> Inl IsADirectoryError
      | File content \<Rightarrow>
          (case os_error of
             Some e \<Rightarrow> Inl (OSError e)
           | None \<Rightarrow>
               (case map_of dest_dir dest_name of
                  Some Dir \<Rightarrow> Inr dest_dir
                | _ \<Rightarrow> Inr (write_file dest_name content dest_dir))))"

text \<open>
  \<^verbatim>\<open>update_exif_artist\<close> (lines 67 to 90).  The result is the directory and the lines
  printed.  The warning names \<^verbatim>\<open>image_file.name\<close>, the name in the destination.
\<close>

definition update_exif_artist :: "exif_outcome \<Rightarrow> filename \<Rightarrow> directory \<Rightarrow> directory \<times> string list" where
  "update_exif_artist outcome image_file d =
     (case outcome of
        ExifSaved content \<Rightarrow> (overwrite image_file content d, [])
      | ExifFailedEarly e \<Rightarrow>
          (d, [''Warning: Could not update EXIF data for '' @ image_file @ '': '' @ e])
      | ExifFailedInSave e left \<Rightarrow>
          (overwrite image_file left d,
           [''Warning: Could not update EXIF data for '' @ image_file @ '': '' @ e]))"

text \<open>
  \<^verbatim>\<open>create_thumbnail\<close> (lines 93 to 117).  The warning names \<^verbatim>\<open>source_file.name\<close>.  A save
  that raises removes the file if the save created it (Pillow's \<^verbatim>\<open>Image.save\<close> does so);
  a file that was there before stays, with what the save left in it.
\<close>

definition create_thumbnail :: "thumb_outcome \<Rightarrow> filename \<Rightarrow> directory \<Rightarrow> filename \<Rightarrow> directory \<times> string list" where
  "create_thumbnail outcome source_file thumb_dir thumb_name =
     (case outcome of
        ThumbSaved content \<Rightarrow> (write_file thumb_name content thumb_dir, [])
      | ThumbFailedEarly e \<Rightarrow>
          (thumb_dir, [''Warning: Could not create thumbnail for '' @ source_file @ '': '' @ e])
      | ThumbFailedInSave e left \<Rightarrow>
          (overwrite thumb_name left thumb_dir,
           [''Warning: Could not create thumbnail for '' @ source_file @ '': '' @ e]))"

section \<open>The TOML index: \<^verbatim>\<open>update_toml_index\<close> (lines 120 to 152)\<close>

text \<open>
  A TOML document as \<^verbatim>\<open>toml.load\<close> returns it: a dictionary from keys to values, in insertion
  order.  Only an array has the method \<^verbatim>\<open>append\<close>.
\<close>

datatype toml_value =
    TString string
  | TInteger int
  | TBoolean bool
  | TArray "toml_value list"
  | TTable "(string \<times> toml_value) list"

type_synonym toml_doc = "(string \<times> toml_value) list"

text \<open>
  The index file on disk: absent, or a document that \<^verbatim>\<open>toml.load\<close> reads, or a file on which
  \<^verbatim>\<open>toml.load\<close> raises (with the text of the exception).
\<close>

datatype index_file = Absent | Loadable toml_doc | Unloadable string

text \<open>
  The attempt to write (lines 147 to 152): it succeeds, or raises with a text and leaves the
  file in some state.
\<close>

datatype write_outcome = Written | WriteFailed string index_file

text \<open>Lines 129 to 136: the document to start from, and the lines printed.\<close>

definition load_index :: "index_file \<Rightarrow> toml_doc \<times> string list" where
  "load_index f =
     (case f of
        Absent \<Rightarrow> ([], [])
      | Loadable data \<Rightarrow> (data, [])
      | Unloadable e \<Rightarrow> ([], [''Warning: Could not load existing TOML file: '' @ e]))"

text \<open>Lines 139 and 140.\<close>

definition ensure_images :: "toml_doc \<Rightarrow> toml_doc" where
  "ensure_images data =
     (if map_of data ''images'' = None then AList.update ''images'' (TArray []) data else data)"

text \<open>Line 144: \<^verbatim>\<open>data['images'].append({'file': image_file})\<close>.\<close>

definition append_image :: "toml_doc \<Rightarrow> string \<Rightarrow> exn + toml_doc" where
  "append_image data image_file =
     (case map_of data ''images'' of
        Some (TArray xs) \<Rightarrow>
          Inr (AList.update ''images'' (TArray (xs @ [TTable [(''file'', TString image_file)]])) data)
      | _ \<Rightarrow> Inl AttributeError)"

text \<open>The loop of lines 143 and 144.\<close>

fun append_images :: "toml_doc \<Rightarrow> string list \<Rightarrow> exn + toml_doc" where
  "append_images data [] = Inr data"
| "append_images data (image_file # image_files) =
     (case append_image data image_file of
        Inl e \<Rightarrow> Inl e
      | Inr data' \<Rightarrow> append_images data' image_files)"

text \<open>Lines 129 to 144: the document that is handed to \<^verbatim>\<open>toml.dump\<close>.\<close>

definition merged_index :: "index_file \<Rightarrow> string list \<Rightarrow> exn + toml_doc" where
  "merged_index f image_files = append_images (ensure_images (fst (load_index f))) image_files"

text \<open>
  The whole function: the index file afterwards and the lines printed, or the exception
  that escapes.
\<close>

definition update_toml_index ::
    "write_outcome \<Rightarrow> string \<Rightarrow> index_file \<Rightarrow> string list \<Rightarrow> exn + (index_file \<times> string list)" where
  "update_toml_index outcome index_path f image_files =
     (case merged_index f image_files of
        Inl e \<Rightarrow> Inl e
      | Inr data \<Rightarrow>
          (case outcome of
             Written \<Rightarrow>
               Inr (Loadable data,
                    snd (load_index f) @ [''Updated TOML index file: '' @ index_path])
           | WriteFailed e left \<Rightarrow>
               Inr (left, snd (load_index f) @ [''Error: Could not write TOML file: '' @ e])))"

section \<open>\<^verbatim>\<open>main\<close> (lines 155 to 224)\<close>

record environment =
  item :: "filename \<Rightarrow> item_env"
  index_write :: write_outcome

text \<open>
  The variables of the loop of lines 200 to 216, with the two directories it writes to and
  the lines printed so far.
\<close>

record run_state =
  images_fs :: directory
  thumbs_fs :: directory
  imported_files :: "string list"
  current_num :: nat
  out :: "string list"

text \<open>
  An optional string argument under \<^verbatim>\<open>if args.x:\<close>: the string when it is given and not
  empty.
\<close>

definition truthy :: "string option \<Rightarrow> string option" where
  "truthy a = (case a of None \<Rightarrow> None | Some s \<Rightarrow> if s = [] then None else Some s)"

text \<open>Lines 208 and 209: the stamper runs only when a photographer is given.\<close>

definition stamp_if_requested ::
    "string option \<Rightarrow> (string \<Rightarrow> exif_outcome) \<Rightarrow> filename \<Rightarrow> directory
      \<Rightarrow> directory \<times> string list" where
  "stamp_if_requested photographer outcome dest_file d =
     (case truthy photographer of
        Some name \<Rightarrow> update_exif_artist (outcome name) dest_file d
      | None \<Rightarrow> (d, []))"

text \<open>Lines 208 to 216: the rest of a turn of the loop once the copy is made.\<close>

definition after_copy ::
    "environment \<Rightarrow> string option \<Rightarrow> filename \<Rightarrow> directory \<Rightarrow> run_state \<Rightarrow> run_state" where
  "after_copy env photographer source_file copied st =
     (let name = new_name (current_num st);
          stamped = stamp_if_requested photographer (exif (item env source_file)) name copied;
          thumbed = create_thumbnail (thumb (item env source_file)) source_file
                      (thumbs_fs st) name
      in \<lparr>images_fs = fst stamped,
          thumbs_fs = fst thumbed,
          imported_files = imported_files st @ [name],
          current_num = current_num st + 1,
          out = out st @ snd stamped @ snd thumbed
                @ [''Imported: '' @ source_file @ '' -> '' @ name @ '' (with thumbnail)'']\<rparr>)"

text \<open>One turn of the loop (lines 204 to 216).\<close>

definition import_one ::
    "environment \<Rightarrow> string option \<Rightarrow> directory \<Rightarrow> filename \<Rightarrow> run_state \<Rightarrow> exn + run_state" where
  "import_one env photographer src source_file st =
     (case map_of src source_file of
        None \<Rightarrow> Inl FileNotFoundError
      | Some e \<Rightarrow>
          (case copy2 e (copy_error (item env source_file)) (new_name (current_num st))
                  (images_fs st) of
             Inl x \<Rightarrow> Inl x
           | Inr copied \<Rightarrow> Inr (after_copy env photographer source_file copied st)))"

fun import_loop ::
    "environment \<Rightarrow> string option \<Rightarrow> directory \<Rightarrow> filename list \<Rightarrow> run_state \<Rightarrow> exn + run_state" where
  "import_loop env photographer src [] st = Inr st"
| "import_loop env photographer src (source_file # image_files) st =
     (case import_one env photographer src source_file st of
        Inl x \<Rightarrow> Inl x
      | Inr st' \<Rightarrow> import_loop env photographer src image_files st')"

text \<open>
  Lines 200 to 216: the loop from its initial state, \<^verbatim>\<open>imported_files = []\<close> and
  \<^verbatim>\<open>current_num = highest_num + 1\<close>.
\<close>

definition import_images ::
    "environment \<Rightarrow> string option \<Rightarrow> directory \<Rightarrow> filename list \<Rightarrow> directory \<Rightarrow> directory
      \<Rightarrow> nat \<Rightarrow> string list \<Rightarrow> exn + run_state" where
  "import_images env photographer src image_files images thumbs highest_num printed =
     import_loop env photographer src image_files
       \<lparr>images_fs = images, thumbs_fs = thumbs, imported_files = [],
        current_num = highest_num + 1, out = printed\<rparr>"

text \<open>The source path: missing, something that is not a directory, or a directory.\<close>

datatype location = Missing | NotADirectory | Directory directory

text \<open>
  The command line, with the two paths as \<^verbatim>\<open>pathlib\<close> prints them, and the file system the
  run works on: the source, the destination's \<^verbatim>\<open>images\<close> and \<^verbatim>\<open>thumbs\<close> (\<open>None\<close> when absent;
  a path that exists and is not a directory is outside the model), the index file, and the
  lines printed.
\<close>

record args =
  source :: string
  destination :: string
  photographer :: "string option"
  index_file :: "string option"

record world =
  source_dir :: location
  images :: "directory option"
  thumbs :: "directory option"
  index :: index_file
  stdout :: "string list"

text \<open>\<^verbatim>\<open>mkdir(exist_ok=True)\<close>: an absent directory is created empty.\<close>

definition mkdir :: "directory option \<Rightarrow> directory" where
  "mkdir d = (case d of None \<Rightarrow> [] | Some entries \<Rightarrow> entries)"

text \<open>
  The result is the value \<^verbatim>\<open>main\<close> returns, which \<^verbatim>\<open>exit(main())\<close> makes the status of the
  process, with the world afterwards; or the exception that escapes.
\<close>

definition main :: "environment \<Rightarrow> args \<Rightarrow> world \<Rightarrow> exn + (nat \<times> world)" where
  "main env a w =
     (case source_dir w of
        Missing \<Rightarrow>
          Inr (1, w\<lparr>stdout := stdout w
                 @ [''Error: Source directory '' @ [CHR 0x27] @ source a @ [CHR 0x27]
                    @ '' does not exist'']\<rparr>)
      | NotADirectory \<Rightarrow>
          Inr (1, w\<lparr>stdout := stdout w
                 @ [''Error: Source path '' @ [CHR 0x27] @ source a @ [CHR 0x27]
                    @ '' is not a directory'']\<rparr>)
      | Directory src \<Rightarrow>
          (let images_dir = mkdir (images w);
               thumbs_dir = mkdir (thumbs w);
               highest_num = find_highest_serial_number (Some images_dir);
               printed = stdout w @ [''Found highest serial number: '' @ fmt04d highest_num];
               image_files = get_image_files (map fst src)
           in if image_files = [] then
                Inr (0, w\<lparr>images := Some images_dir, thumbs := Some thumbs_dir,
                         stdout := printed
                           @ [''No JPEG files found in '' @ [CHR 0x27] @ source a @ [CHR 0x27]]\<rparr>)
              else
                (case import_images env (photographer a) src image_files images_dir thumbs_dir
                        highest_num
                        (printed @ [''Found '' @ str_nat (length image_files)
                                    @ '' image files to import'']) of
                   Inl x \<Rightarrow> Inl x
                 | Inr st \<Rightarrow>
                     (case (case truthy (index_file a) of
                              Some path \<Rightarrow>
                                update_toml_index (index_write env) path (index w)
                                  (imported_files st)
                            | None \<Rightarrow> Inr (index w, [])) of
                        Inl x \<Rightarrow> Inl x
                      | Inr (index', printed') \<Rightarrow>
                          Inr (0, w\<lparr>images := Some (images_fs st),
                                   thumbs := Some (thumbs_fs st),
                                   index := index',
                                   stdout := out st @ printed'
                                     @ [''Successfully imported ''
                                        @ str_nat (length (imported_files st))
                                        @ '' images'']\<rparr>)))))"

section \<open>Notions of the statements\<close>



text \<open>
  What the scan of the code counts: the digit groups of the regular files whose names start
  with the prefix, four digits and the extension.
\<close>

definition serial_numbers :: "directory \<Rightarrow> nat set" where
  "serial_numbers entries =
     {int_of_digits g | name content g rest.
        (name, File content) \<in> set entries \<and> length g = 4 \<and> list_all isdigit g
        \<and> name = ''LOP25-'' @ g @ ''.jpeg'' @ rest}"

text \<open>
  The entries of an index document as the code keeps them: the array under the key
  \<^verbatim>\<open>images\<close>, no entries when the key is absent, and \<open>None\<close> when the key holds something
  that is not an array.
\<close>

definition entries_of :: "toml_doc \<Rightarrow> toml_value list option" where
  "entries_of data =
     (case map_of data ''images'' of
        None \<Rightarrow> Some []
      | Some (TArray xs) \<Rightarrow> Some xs
      | Some _ \<Rightarrow> None)"

definition file_entry :: "string \<Rightarrow> toml_value" where
  "file_entry name = TTable [(''file'', TString name)]"

text \<open>The names the enumerator accepts: those that end in one of the four extensions.\<close>

definition accepted_name :: "filename \<Rightarrow> bool" where
  "accepted_name name =
     (suffix ''.jpeg'' name \<or> suffix ''.jpg'' name \<or> suffix ''.JPEG'' name \<or> suffix ''.JPG'' name)"

text \<open>What the copy leaves in the collection.\<close>

definition copied_to :: "bytes \<Rightarrow> filename \<Rightarrow> directory \<Rightarrow> directory" where
  "copied_to content name d =
     (case map_of d name of Some Dir \<Rightarrow> d | _ \<Rightarrow> write_file name content d)"

text \<open>
  No copy step of the batch fails: every item is a regular file of the source and the
  operating system refuses none of the copies.
\<close>

definition copies_succeed :: "environment \<Rightarrow> directory \<Rightarrow> filename list \<Rightarrow> bool" where
  "copies_succeed env src image_files =
     list_all (\<lambda>f. (case map_of src f of Some (File _) \<Rightarrow> True | _ \<Rightarrow> False)
                    \<and> copy_error (item env f) = None) image_files"


text \<open>
  An example batch: two images, an empty destination, and an environment in which the
  first image can be neither stamped nor reduced to a thumbnail.
\<close>

definition all_succeed :: environment where
  "all_succeed =
     \<lparr>item = (\<lambda>f. \<lparr>copy_error = None, exif = (\<lambda>p. ExifSaved ''stamped''),
                    thumb = ThumbSaved ''small''\<rparr>),
      index_write = Written\<rparr>"

definition first_fails :: environment where
  "first_fails =
     \<lparr>item = (\<lambda>f. if f = ''a.jpg''
                  then \<lparr>copy_error = None, exif = (\<lambda>p. ExifFailedEarly ''no EXIF''),
                        thumb = ThumbFailedEarly ''cannot identify image file''\<rparr>
                  else \<lparr>copy_error = None, exif = (\<lambda>p. ExifSaved ''stamped''),
                        thumb = ThumbSaved ''small''\<rparr>),
      index_write = Written\<rparr>"

definition two_images :: directory where
  "two_images = [(''a.jpg'', File ''A''), (''b.jpg'', File ''B'')]"

definition fresh_state :: run_state where
  "fresh_state = \<lparr>images_fs = [], thumbs_fs = [], imported_files = [], current_num = 1, out = []\<rparr>"

text \<open>A run without photographer and index, and a destination that holds the identifier 9999.\<close>

definition plain_args :: args where
  "plain_args = \<lparr>source = ''in'', destination = ''site'', photographer = None, index_file = None\<rparr>"

definition almost_full :: directory where
  "almost_full = [(''LOP25-9999.jpeg'', File ''old'')]"

text \<open>The destination collection holds regular files only.\<close>

definition regular_files :: "directory \<Rightarrow> bool" where
  "regular_files d = list_all (\<lambda>p. is_file (snd p)) d"

text \<open>A second batch: one more image for a destination and an index that hold two.\<close>

definition second_batch :: world where
  "second_batch =
     \<lparr>source_dir = Directory [(''c.jpg'', File ''C''), (''notes.txt'', File ''n'')],
      images = Some [(''LOP25-0001.jpeg'', File ''A''), (''LOP25-0002.jpeg'', File ''B'')],
      thumbs = Some [(''LOP25-0001.jpeg'', File ''small''), (''LOP25-0002.jpeg'', File ''small'')],
      index = Loadable [(''title'', TString ''Lifjell Opp''),
                        (''images'', TArray [TTable [(''file'', TString ''LOP25-0001.jpeg'')],
                                            TTable [(''file'', TString ''LOP25-0002.jpeg'')]])],
      stdout = []\<rparr>"

definition index_args :: args where
  "index_args = \<lparr>source = ''in'', destination = ''site'', photographer = None,
                  index_file = Some ''index.toml''\<rparr>"

text \<open>A first batch: one image, nothing at the destination, no index yet.\<close>

definition first_batch :: world where
  "first_batch =
     \<lparr>source_dir = Directory [(''a.jpg'', File ''A'')], images = None, thumbs = None,
      index = Absent, stdout = []\<rparr>"

section \<open>The identifier allocator\<close>

definition qualifies :: "filename \<times> entry \<Rightarrow> bool" where
  "qualifies p = (is_file (snd p) \<and> pattern_match (fst p) \<noteq> None)"

definition serial_of :: "filename \<times> entry \<Rightarrow> nat" where
  "serial_of p = int_of_digits (the (pattern_match (fst p)))"

lemma scan_entry_alt:
  "scan_entry m p = (if qualifies p then max m (serial_of p) else m)"
  by (auto simp: scan_entry_def qualifies_def serial_of_def split: option.splits)

lemma Max_insert_max:
  fixes m v :: nat
  assumes "finite S"
  shows "Max (insert (max m v) S) = Max (insert m (insert v S))"
proof (cases "S = {}")
  case True
  then show ?thesis by simp
next
  case False
  then show ?thesis using assms by (simp add: max.assoc)
qed

lemma foldl_scan_entry_Max:
  "foldl scan_entry m es = Max (insert m (serial_of ` {p \<in> set es. qualifies p}))"
proof (induction es arbitrary: m)
  case Nil
  show ?case by simp
next
  case (Cons p es)
  let ?S = "serial_of ` {q \<in> set es. qualifies q}"
  have fin: "finite ?S" by simp
  show ?case
  proof (cases "qualifies p")
    case True
    have "{q \<in> set (p # es). qualifies q} = insert p {q \<in> set es. qualifies q}"
      using True by auto
    then have eq: "serial_of ` {q \<in> set (p # es). qualifies q} = insert (serial_of p) ?S"
      by simp
    have step: "scan_entry m p = max m (serial_of p)"
      using True by (simp add: scan_entry_alt)
    have "foldl scan_entry m (p # es) = foldl scan_entry (max m (serial_of p)) es"
      by (simp only: foldl.simps step)
    also have "\<dots> = Max (insert (max m (serial_of p)) ?S)"
      by (rule Cons.IH)
    also have "\<dots> = Max (insert m (insert (serial_of p) ?S))"
      by (rule Max_insert_max [OF fin])
    finally show ?thesis using eq by simp
  next
    case False
    have "{q \<in> set (p # es). qualifies q} = {q \<in> set es. qualifies q}"
      using False by auto
    moreover have "scan_entry m p = m"
      using False by (simp add: scan_entry_alt)
    ultimately show ?thesis using Cons.IH [of m] by simp
  qed
qed

lemma pattern_match_Some_iff:
  "pattern_match name = Some g \<longleftrightarrow>
     length g = 4 \<and> list_all isdigit g \<and> (\<exists>rest. name = ''LOP25-'' @ g @ ''.jpeg'' @ rest)"
proof
  assume a: "pattern_match name = Some g"
  then have g: "g = take 4 (drop 6 name)" and p: "take 6 name = ''LOP25-''"
    and l: "length g = 4" and d: "list_all isdigit g" and e: "take 5 (drop 10 name) = ''.jpeg''"
    by (auto simp: pattern_match_def Let_def split: if_splits)
  have 1: "name = take 6 name @ drop 6 name" by simp
  have 2: "drop 6 name = take 4 (drop 6 name) @ drop 10 name"
    using append_take_drop_id [of 4 "drop 6 name"] by simp
  have 3: "drop 10 name = take 5 (drop 10 name) @ drop 15 name"
    using append_take_drop_id [of 5 "drop 10 name"] by simp
  have "name = ''LOP25-'' @ g @ ''.jpeg'' @ drop 15 name"
    using 1 2 3 g p e by metis
  then show "length g = 4 \<and> list_all isdigit g \<and> (\<exists>rest. name = ''LOP25-'' @ g @ ''.jpeg'' @ rest)"
    using l d by blast
next
  assume "length g = 4 \<and> list_all isdigit g \<and> (\<exists>rest. name = ''LOP25-'' @ g @ ''.jpeg'' @ rest)"
  then obtain rest where l: "length g = 4" and d: "list_all isdigit g"
    and n: "name = ''LOP25-'' @ g @ ''.jpeg'' @ rest" by blast
  show "pattern_match name = Some g"
    using l d by (simp add: pattern_match_def n Let_def)
qed

lemma serial_numbers_alt:
  "serial_numbers es = serial_of ` {p \<in> set es. qualifies p}"
proof (rule set_eqI, rule iffI)
  fix n
  assume "n \<in> serial_numbers es"
  then obtain name content g rest where
    m: "(name, File content) \<in> set es" and l: "length g = 4" and d: "list_all isdigit g"
    and nm: "name = ''LOP25-'' @ g @ ''.jpeg'' @ rest" and n: "n = int_of_digits g"
    unfolding serial_numbers_def by blast
  have pm: "pattern_match name = Some g"
    using l d nm pattern_match_Some_iff by blast
  then have "qualifies (name, File content)" and "serial_of (name, File content) = n"
    using n by (simp_all add: qualifies_def serial_of_def)
  then show "n \<in> serial_of ` {p \<in> set es. qualifies p}"
    using m by force
next
  fix n
  assume "n \<in> serial_of ` {p \<in> set es. qualifies p}"
  then obtain name e where m: "(name, e) \<in> set es" and q: "qualifies (name, e)"
    and n: "n = serial_of (name, e)" by auto
  from q obtain content where e: "e = File content"
    by (cases e) (simp_all add: qualifies_def)
  from q obtain g where pm: "pattern_match name = Some g"
    by (auto simp: qualifies_def)
  then obtain rest where "length g = 4" "list_all isdigit g"
    "name = ''LOP25-'' @ g @ ''.jpeg'' @ rest"
    using pattern_match_Some_iff by blast
  moreover have "n = int_of_digits g"
    using n pm by (simp add: serial_of_def)
  ultimately show "n \<in> serial_numbers es"
    using m e unfolding serial_numbers_def by blast
qed




section \<open>The index merger\<close>

lemma append_images_array:
  "map_of data ''images'' = Some (TArray xs) \<Longrightarrow>
   append_images data names
     = Inr (AList.update ''images'' (TArray (xs @ map file_entry names)) data)"
proof (induction names arbitrary: data xs)
  case Nil
  then show ?case by (simp add: AList.update_triv)
next
  case (Cons n names)
  let ?d = "AList.update ''images'' (TArray (xs @ [file_entry n])) data"
  have 1: "append_image data n = Inr ?d"
    using Cons.prems by (simp add: append_image_def file_entry_def)
  have 2: "map_of ?d ''images'' = Some (TArray (xs @ [file_entry n]))"
    by (simp add: AList.update_conv')
  show ?case
    using Cons.IH [OF 2] 1 by simp
qed

lemma ensure_images_array:
  "entries_of data = Some xs \<Longrightarrow> map_of (ensure_images data) ''images'' = Some (TArray xs)"
  by (auto simp: entries_of_def ensure_images_def AList.update_conv'
      split: option.splits toml_value.splits)

lemma ensure_images_other:
  "k \<noteq> ''images'' \<Longrightarrow> map_of (ensure_images data) k = map_of data k"
  by (simp add: ensure_images_def AList.update_conv')

lemma merged_index_entries:
  assumes "entries_of (fst (load_index f)) = Some old"
  shows "merged_index f names
     = Inr (AList.update ''images'' (TArray (old @ map file_entry names))
             (ensure_images (fst (load_index f))))"
  unfolding merged_index_def
  by (rule append_images_array [OF ensure_images_array [OF assms]])

lemma file_entry_fun: "file_entry = (\<lambda>name. TTable [(''file'', TString name)])"
  by (rule ext) (simp add: file_entry_def)

lemma merged_index_appends_images:
  assumes "entries_of (fst (load_index f)) = Some old"
  shows "\<exists>data. merged_index f names = Inr data
           \<and> map_of data ''images''
               = Some (TArray (old @ map (\<lambda>name. TTable [(''file'', TString name)]) names))
           \<and> update_toml_index Written path f names
               = Inr (Loadable data, snd (load_index f) @ [''Updated TOML index file: '' @ path])"
  using merged_index_entries [OF assms, of names]
  by (simp add: update_toml_index_def AList.update_conv' file_entry_fun)

text \<open>
  Claim C5, as the code has it.  For every loadable index document whose \<^verbatim>\<open>images\<close> value,
  when there is one, is an array, and every list of new filenames, the document written
  back holds the earlier entries in their order, followed by one entry per new filename in
  order, and every other top-level key has the value it had.
\<close>

theorem update_toml_index_preserves:
  assumes "entries_of data = Some old"
  shows "\<exists>data'. update_toml_index Written path (Loadable data) names
             = Inr (Loadable data', [''Updated TOML index file: '' @ path])
           \<and> entries_of data' = Some (old @ map (\<lambda>name. TTable [(''file'', TString name)]) names)
           \<and> (\<forall>k. k \<noteq> ''images'' \<longrightarrow> map_of data' k = map_of data k)"
proof -
  have l: "load_index (Loadable data) = (data, [])"
    by (simp add: load_index_def)
  have a: "entries_of (fst (load_index (Loadable data))) = Some old"
    using assms l by simp
  show ?thesis
    using merged_index_entries [OF a, of names] l
    by (simp add: update_toml_index_def AList.update_conv' file_entry_fun entries_of_def
        ensure_images_other)
qed

theorem update_toml_index_preserves_witness:
  "entries_of [(''title'', TString ''Lifjell Opp''),
               (''images'', TArray [TTable [(''file'', TString ''LOP25-0001.jpeg'')]])]
     = Some [TTable [(''file'', TString ''LOP25-0001.jpeg'')]]
   \<and> (\<exists>data'. update_toml_index Written ''index.toml''
                 (Loadable [(''title'', TString ''Lifjell Opp''),
                            (''images'', TArray [TTable [(''file'', TString ''LOP25-0001.jpeg'')]])])
                 [''LOP25-0002.jpeg'']
               = Inr (Loadable data', [''Updated TOML index file: '' @ ''index.toml''])
         \<and> entries_of data' = Some [TTable [(''file'', TString ''LOP25-0001.jpeg'')],
                                     TTable [(''file'', TString ''LOP25-0002.jpeg'')]]
         \<and> map_of data' ''title'' = Some (TString ''Lifjell Opp''))"
proof -
  have h: "entries_of [(''title'', TString ''Lifjell Opp''),
               (''images'', TArray [TTable [(''file'', TString ''LOP25-0001.jpeg'')]])]
     = Some [TTable [(''file'', TString ''LOP25-0001.jpeg'')]]"
    by (simp add: entries_of_def)
  show ?thesis
    using h update_toml_index_preserves [OF h, of "''index.toml''" "[''LOP25-0002.jpeg'']"]
    by auto
qed

text \<open>
  Claim C5 as the specification words it speaks of every loadable document.  A document
  whose \<^verbatim>\<open>images\<close> value is a string loads, and line 144 then raises
  \<^verbatim>\<open>AttributeError\<close>, which nothing catches: no document is written back.
\<close>

theorem index_not_array_counterexample:
  "update_toml_index Written ''index.toml''
     (Loadable [(''title'', TString ''Lifjell Opp''), (''images'', TString ''none'')])
     [''LOP25-0001.jpeg'']
   = Inl AttributeError"
  by code_simp

section \<open>The source enumerator\<close>

lemma glob_match_literal:
  "CHR ''*'' \<notin> set p \<Longrightarrow> glob_match p s \<longleftrightarrow> s = p"
proof (induction p arbitrary: s)
  case Nil
  show ?case by simp
next
  case (Cons c p)
  then show ?case by (cases s) auto
qed

lemma glob_match_star:
  assumes "CHR ''*'' \<notin> set suf"
  shows "glob_match (CHR ''*'' # suf) s \<longleftrightarrow> suffix suf s"
proof (induction s)
  case Nil
  show ?case using assms by (auto simp: glob_match_literal)
next
  case (Cons c s)
  have "glob_match (CHR ''*'' # suf) (c # s)
          \<longleftrightarrow> glob_match suf (c # s) \<or> glob_match (CHR ''*'' # suf) s"
    by simp
  also have "\<dots> \<longleftrightarrow> c # s = suf \<or> suffix suf s"
    using assms Cons.IH by (simp add: glob_match_literal)
  also have "\<dots> \<longleftrightarrow> suffix suf (c # s)"
    by (auto simp: suffix_Cons)
  finally show ?case .
qed

lemma glob_patterns:
  "glob_match ''*.jpeg'' s = suffix ''.jpeg'' s"
  "glob_match ''*.jpg'' s = suffix ''.jpg'' s"
  "glob_match ''*.JPEG'' s = suffix ''.JPEG'' s"
  "glob_match ''*.JPG'' s = suffix ''.JPG'' s"
  by (rule glob_match_star, simp)+

lemma get_image_files_alt:
  "get_image_files names =
     sort (filter (suffix ''.jpeg'') names @ filter (suffix ''.jpg'') names
           @ filter (suffix ''.JPEG'') names @ filter (suffix ''.JPG'') names)"
proof -
  have e: "glob_match ''*.jpeg'' = suffix ''.jpeg''" "glob_match ''*.jpg'' = suffix ''.jpg''"
    "glob_match ''*.JPEG'' = suffix ''.JPEG''" "glob_match ''*.JPG'' = suffix ''.JPG''"
    by (rule ext, rule glob_patterns)+
  show ?thesis by (simp add: get_image_files_def patterns_def e)
qed

lemma set_get_image_files:
  "set (get_image_files names) = {n \<in> set names. accepted_name n}"
  by (auto simp: get_image_files_alt accepted_name_def)

lemma ext_disjoint:
  "\<not> (suffix ''.jpeg'' n \<and> suffix ''.jpg'' n)"
  "\<not> (suffix ''.jpeg'' n \<and> suffix ''.JPEG'' n)"
  "\<not> (suffix ''.jpeg'' n \<and> suffix ''.JPG'' n)"
  "\<not> (suffix ''.jpg'' n \<and> suffix ''.JPEG'' n)"
  "\<not> (suffix ''.jpg'' n \<and> suffix ''.JPG'' n)"
  "\<not> (suffix ''.JPEG'' n \<and> suffix ''.JPG'' n)"
proof -
  have c: "\<not> suffix ''.jpeg'' ''.jpg''" "\<not> suffix ''.jpg'' ''.jpeg''"
    "\<not> suffix ''.jpeg'' ''.JPEG''" "\<not> suffix ''.JPEG'' ''.jpeg''"
    "\<not> suffix ''.jpeg'' ''.JPG''" "\<not> suffix ''.JPG'' ''.jpeg''"
    "\<not> suffix ''.jpg'' ''.JPEG''" "\<not> suffix ''.JPEG'' ''.jpg''"
    "\<not> suffix ''.jpg'' ''.JPG''" "\<not> suffix ''.JPG'' ''.jpg''"
    "\<not> suffix ''.JPEG'' ''.JPG''" "\<not> suffix ''.JPG'' ''.JPEG''"
    by (simp_all add: suffix_to_prefix)
  show "\<not> (suffix ''.jpeg'' n \<and> suffix ''.jpg'' n)"
    using suffix_same_cases c by blast
  show "\<not> (suffix ''.jpeg'' n \<and> suffix ''.JPEG'' n)"
    using suffix_same_cases c by blast
  show "\<not> (suffix ''.jpeg'' n \<and> suffix ''.JPG'' n)"
    using suffix_same_cases c by blast
  show "\<not> (suffix ''.jpg'' n \<and> suffix ''.JPEG'' n)"
    using suffix_same_cases c by blast
  show "\<not> (suffix ''.jpg'' n \<and> suffix ''.JPG'' n)"
    using suffix_same_cases c by blast
  show "\<not> (suffix ''.JPEG'' n \<and> suffix ''.JPG'' n)"
    using suffix_same_cases c by blast
qed

lemma distinct_get_image_files:
  assumes "distinct names"
  shows "distinct (get_image_files names)"
  using assms ext_disjoint [of _] by (auto simp: get_image_files_alt)

text \<open>
  Claim C8.  For every listing of the source directory the enumerator returns exactly the
  names that end in \<^verbatim>\<open>.jpeg\<close>, \<^verbatim>\<open>.jpg\<close>, \<^verbatim>\<open>.JPEG\<close> or \<^verbatim>\<open>.JPG\<close>, each once, sorted in the
  lexicographic order of their characters; the result does not depend on the order in
  which the directory is listed, so two runs over an unchanged source give the same list;
  and when no name is accepted the result is the empty list, not an error.
\<close>

theorem get_image_files_sorted_exact:
  "set (get_image_files names) = {n \<in> set names. accepted_name n}
   \<and> sorted (get_image_files names)
   \<and> (distinct names \<longrightarrow> distinct (get_image_files names))
   \<and> (distinct names \<and> distinct names' \<and> set names' = set names
        \<longrightarrow> get_image_files names' = get_image_files names)
   \<and> ((\<forall>n \<in> set names. \<not> accepted_name n) \<longrightarrow> get_image_files names = [])"
proof -
  have 1: "set (get_image_files names) = {n \<in> set names. accepted_name n}"
    by (rule set_get_image_files)
  have 2: "sorted (get_image_files names)"
    by (simp add: get_image_files_def)
  have 3: "distinct names \<longrightarrow> distinct (get_image_files names)"
    by (simp add: distinct_get_image_files)
  have 4: "distinct names \<and> distinct names' \<and> set names' = set names
        \<longrightarrow> get_image_files names' = get_image_files names"
  proof
    assume a: "distinct names \<and> distinct names' \<and> set names' = set names"
    have "set (get_image_files names') = set (get_image_files names)"
      using a by (simp add: set_get_image_files)
    moreover have "sorted (get_image_files names')" "sorted (get_image_files names)"
      by (simp_all add: get_image_files_def)
    moreover have "distinct (get_image_files names')" "distinct (get_image_files names)"
      using a by (simp_all add: distinct_get_image_files)
    ultimately show "get_image_files names' = get_image_files names"
      by (simp add: sorted_distinct_set_unique)
  qed
  have 5: "(\<forall>n \<in> set names. \<not> accepted_name n) \<longrightarrow> get_image_files names = []"
    using 1 by (metis (mono_tags, lifting) empty_Collect_eq set_empty)
  show ?thesis using 1 2 3 4 5 by blast
qed


theorem get_image_files_sorted_exact_witness:
  "get_image_files [''b.jpg'', ''a.JPG'', ''c.txt'', ''B.jpeg''] = [''B.jpeg'', ''a.JPG'', ''b.jpg'']
   \<and> sorted [''B.jpeg'', ''a.JPG'', ''b.jpg'']
   \<and> distinct [''b.jpg'', ''a.JPG'', ''c.txt'', ''B.jpeg'']
   \<and> distinct [''a.JPG'', ''B.jpeg'', ''c.txt'', ''b.jpg'']
   \<and> set [''a.JPG'', ''B.jpeg'', ''c.txt'', ''b.jpg'']
       = set [''b.jpg'', ''a.JPG'', ''c.txt'', ''B.jpeg'']
   \<and> get_image_files [''a.JPG'', ''B.jpeg'', ''c.txt'', ''b.jpg'']
       = get_image_files [''b.jpg'', ''a.JPG'', ''c.txt'', ''B.jpeg'']
   \<and> \<not> accepted_name ''c.txt'' \<and> \<not> accepted_name ''x.Jpg''
   \<and> get_image_files [''c.txt'', ''x.Jpg''] = []"
proof -
  have e: "get_image_files [''b.jpg'', ''a.JPG'', ''c.txt'', ''B.jpeg'']
             = [''B.jpeg'', ''a.JPG'', ''b.jpg'']"
    by code_simp
  have d: "distinct [''b.jpg'', ''a.JPG'', ''c.txt'', ''B.jpeg'']"
    "distinct [''a.JPG'', ''B.jpeg'', ''c.txt'', ''b.jpg'']"
    by simp_all
  have s: "set [''a.JPG'', ''B.jpeg'', ''c.txt'', ''b.jpg'']
       = set [''b.jpg'', ''a.JPG'', ''c.txt'', ''B.jpeg'']"
    by auto
  have n: "\<not> accepted_name ''c.txt''" "\<not> accepted_name ''x.Jpg''"
    by (simp_all add: accepted_name_def suffix_to_prefix)
  have 1: "sorted (get_image_files [''b.jpg'', ''a.JPG'', ''c.txt'', ''B.jpeg''])"
    and 2: "get_image_files [''a.JPG'', ''B.jpeg'', ''c.txt'', ''b.jpg'']
       = get_image_files [''b.jpg'', ''a.JPG'', ''c.txt'', ''B.jpeg'']"
    using get_image_files_sorted_exact
      [of "[''b.jpg'', ''a.JPG'', ''c.txt'', ''B.jpeg'']"
          "[''a.JPG'', ''B.jpeg'', ''c.txt'', ''b.jpg'']"] d s
    by blast+
  have 3: "get_image_files [''c.txt'', ''x.Jpg''] = []"
    using get_image_files_sorted_exact [of "[''c.txt'', ''x.Jpg'']"] n by simp
  show ?thesis
    using e d s n 1 2 3 by (simp only: simp_thms)
qed

section \<open>Numbers in names\<close>

lemma digit_cases:
  assumes "d < (10::nat)"
  obtains "d = 0" | "d = 1" | "d = 2" | "d = 3" | "d = 4"
    | "d = 5" | "d = 6" | "d = 7" | "d = 8" | "d = 9"
proof -
  have "d = 0 \<or> d = 1 \<or> d = 2 \<or> d = 3 \<or> d = 4 \<or> d = 5 \<or> d = 6 \<or> d = 7 \<or> d = 8 \<or> d = 9"
    using assms by presburger
  then show thesis using that by blast
qed

lemma digit_char_digit: "d < 10 \<Longrightarrow> isdigit (digit_char d)"
  by (erule digit_cases) (simp_all add: digit_char_def isdigit_def)

lemma digit_value_digit_char: "d < 10 \<Longrightarrow> digit_value (digit_char d) = d"
  by (erule digit_cases) (simp_all add: digit_char_def digit_value_def)

lemma int_of_digits_snoc:
  "int_of_digits (s @ [c]) = 10 * int_of_digits s + digit_value c"
  by (simp add: int_of_digits_def)

lemma int_of_digits_str_nat: "int_of_digits (str_nat n) = n"
proof (induction n rule: str_nat.induct)
  case (1 n)
  show ?case
  proof (cases "n < 10")
    case True
    then show ?thesis
      by (simp add: str_nat.simps [of n] int_of_digits_def digit_value_digit_char)
  next
    case False
    then have "int_of_digits (str_nat n) = 10 * int_of_digits (str_nat (n div 10))
        + digit_value (digit_char (n mod 10))"
      by (simp add: str_nat.simps [of n] int_of_digits_snoc)
    also have "\<dots> = 10 * (n div 10) + n mod 10"
      using "1.IH" False by (simp add: digit_value_digit_char)
    finally show ?thesis by simp
  qed
qed

lemma isdigit_str_nat: "list_all isdigit (str_nat n)"
proof (induction n rule: str_nat.induct)
  case (1 n)
  show ?case
  proof (cases "n < 10")
    case True
    then show ?thesis by (simp add: str_nat.simps [of n] digit_char_digit)
  next
    case False
    then show ?thesis using "1.IH" by (simp add: str_nat.simps [of n] digit_char_digit)
  qed
qed

lemma length_str_nat_pos: "0 < length (str_nat n)"
  by (subst str_nat.simps) simp

lemma length_str_nat_le: "n < 10 ^ k \<Longrightarrow> 0 < k \<Longrightarrow> length (str_nat n) \<le> k"
proof (induction n arbitrary: k rule: str_nat.induct)
  case (1 n)
  show ?case
  proof (cases "n < 10")
    case True
    then show ?thesis using "1.prems" by (simp add: str_nat.simps [of n])
  next
    case False
    obtain j where k: "k = Suc j" using "1.prems" by (cases k) auto
    have "j \<noteq> 0" using False "1.prems" k by (cases j) auto
    moreover have "n div 10 < 10 ^ j"
      using "1.prems" k by (simp add: less_mult_imp_div_less mult.commute)
    ultimately have "length (str_nat (n div 10)) \<le> j"
      using "1.IH" [of j] False by simp
    then show ?thesis using False k by (simp add: str_nat.simps [of n])
  qed
qed

lemma length_str_nat_gt: "10 ^ k \<le> n \<Longrightarrow> k < length (str_nat n)"
proof (induction n arbitrary: k rule: str_nat.induct)
  case (1 n)
  show ?case
  proof (cases k)
    case 0
    then show ?thesis using length_str_nat_pos by simp
  next
    case (Suc j)
    have "(10::nat) \<le> 10 ^ Suc j"
      by (rule self_le_power) simp_all
    moreover have "10 ^ Suc j \<le> n" using "1.prems" Suc by simp
    ultimately have ge: "10 \<le> n" by (rule le_trans)
    have "10 ^ j \<le> n div 10"
      using "1.prems" Suc by (simp add: less_eq_div_iff_mult_less_eq mult.commute)
    then have "j < length (str_nat (n div 10))"
      using "1.IH" [of j] ge by simp
    then show ?thesis using ge Suc by (simp add: str_nat.simps [of n])
  qed
qed

lemma int_of_digits_zeros:
  "int_of_digits (replicate k (CHR ''0'') @ s) = int_of_digits s"
proof -
  have "foldl (\<lambda>a c. 10 * a + digit_value c) 0 (replicate k (CHR ''0'')) = 0"
    by (induction k) (simp_all add: digit_value_def)
  then show ?thesis by (simp add: int_of_digits_def)
qed

lemma int_of_digits_fmt04d: "int_of_digits (fmt04d n) = n"
  by (simp add: fmt04d_def int_of_digits_zeros int_of_digits_str_nat)

lemma isdigit_fmt04d: "list_all isdigit (fmt04d n)"
proof -
  have "list_all isdigit (replicate k (CHR ''0''))" for k
    by (simp add: list_all_iff isdigit_def)
  then show ?thesis by (simp add: fmt04d_def isdigit_str_nat)
qed

lemma fmt04d_inj: "fmt04d m = fmt04d n \<Longrightarrow> m = n"
  by (metis int_of_digits_fmt04d)

lemma new_name_inj: "new_name m = new_name n \<longleftrightarrow> m = n"
  by (auto simp: new_name_def dest: fmt04d_inj)

lemma length_fmt04d_small: "n < 10000 \<Longrightarrow> length (fmt04d n) = 4"
  using length_str_nat_le [of n 4] by (simp add: fmt04d_def)

lemma length_fmt04d_big: "10000 \<le> n \<Longrightarrow> 4 < length (fmt04d n)"
  using length_str_nat_gt [of 4 n] by (simp add: fmt04d_def)

lemma pattern_match_new_name_small:
  "n < 10000 \<Longrightarrow> pattern_match (new_name n) = Some (fmt04d n)"
  by (simp add: pattern_match_Some_iff length_fmt04d_small isdigit_fmt04d new_name_def)

lemma pattern_match_new_name_big:
  assumes "10000 \<le> n"
  shows "pattern_match (new_name n) = None"
proof (rule ccontr)
  assume "pattern_match (new_name n) \<noteq> None"
  then obtain g where "pattern_match (new_name n) = Some g" by auto
  then obtain rest where l: "length g = 4"
    and e: "new_name n = ''LOP25-'' @ g @ ''.jpeg'' @ rest"
    using pattern_match_Some_iff by blast
  from e have "fmt04d n @ ''.jpeg'' = g @ ''.jpeg'' @ rest"
    by (simp add: new_name_def)
  then have "(fmt04d n @ ''.jpeg'') ! 4 = (g @ ''.jpeg'' @ rest) ! 4" by simp
  then have "fmt04d n ! 4 = CHR ''.''"
    using l length_fmt04d_big [OF assms] by (simp add: nth_append)
  moreover have "isdigit (fmt04d n ! 4)"
    using isdigit_fmt04d [of n] length_fmt04d_big [OF assms] by (simp add: list_all_length)
  ultimately show False by (simp add: isdigit_def)
qed

section \<open>The admission loop\<close>

lemma map_of_write_file:
  "map_of (write_file k c d) = (map_of d)(k \<mapsto> File c)"
  by (simp add: write_file_def AList.update_conv')

lemma map_of_overwrite_other:
  "n \<noteq> k \<Longrightarrow> map_of (overwrite k c d) n = map_of d n"
  by (simp add: overwrite_def AList.update_conv' split: option.splits entry.splits)

lemma map_of_overwrite_None:
  "(map_of (overwrite k c d) n = None) = (map_of d n = None)"
  by (auto simp: overwrite_def AList.update_conv' split: option.splits entry.splits)


lemma exif_other:
  "n \<noteq> k \<Longrightarrow> map_of (fst (update_exif_artist oc k d)) n = map_of d n"
  by (cases oc) (simp_all add: update_exif_artist_def map_of_overwrite_other)

lemma exif_None:
  "(map_of (fst (update_exif_artist oc k d)) n = None) = (map_of d n = None)"
  by (cases oc) (simp_all add: update_exif_artist_def map_of_overwrite_None)


lemma exif_warn: "snd (update_exif_artist oc k d') = snd (update_exif_artist oc k d)"
  by (cases oc) (simp_all add: update_exif_artist_def)

lemma thumb_other:
  "n \<noteq> k \<Longrightarrow> map_of (fst (create_thumbnail oc f d k)) n = map_of d n"
  by (cases oc) (simp_all add: create_thumbnail_def map_of_overwrite_other map_of_write_file)


lemma thumb_warn: "snd (create_thumbnail oc f d' k) = snd (create_thumbnail oc f d k)"
  by (cases oc) (simp_all add: create_thumbnail_def)

lemma copy2_File:
  "copy2 (File c) None name d = Inr (copied_to c name d)"
  by (simp add: copy2_def copied_to_def split: option.splits entry.splits)

lemma copy2_Inl:
  "copy2 e os name d = Inl x \<longleftrightarrow>
     (e = Dir \<and> x = IsADirectoryError) \<or> (\<exists>c m. e = File c \<and> os = Some m \<and> x = OSError m)"
  by (cases e; cases os) (auto simp: copy2_def split: option.splits entry.splits)


lemma stamp_other:
  "n \<noteq> k \<Longrightarrow> map_of (fst (stamp_if_requested ph oc k d)) n = map_of d n"
  by (simp add: stamp_if_requested_def exif_other split: option.splits)

lemma stamp_None:
  "(map_of (fst (stamp_if_requested ph oc k d)) n = None) = (map_of d n = None)"
  by (simp add: stamp_if_requested_def exif_None split: option.splits)


lemma stamp_warn:
  "snd (stamp_if_requested ph oc k d') = snd (stamp_if_requested ph oc k d)"
  by (auto simp: stamp_if_requested_def split: option.splits intro: exif_warn)

lemma copied_to_other:
  "n \<noteq> k \<Longrightarrow> map_of (copied_to c k d) n = map_of d n"
  by (simp add: copied_to_def map_of_write_file split: option.splits entry.splits)

lemma copied_to_present: "map_of (copied_to c k d) k \<noteq> None"
  by (simp add: copied_to_def map_of_write_file split: option.splits entry.splits)


lemma copied_to_mono: "map_of d n \<noteq> None \<Longrightarrow> map_of (copied_to c k d) n \<noteq> None"
  by (cases "n = k") (simp_all add: copied_to_present copied_to_other)

lemma after_copy_fields:
  "images_fs (after_copy env ph f copied st)
     = fst (stamp_if_requested ph (exif (item env f)) (new_name (current_num st)) copied)"
  "thumbs_fs (after_copy env ph f copied st)
     = fst (create_thumbnail (thumb (item env f)) f (thumbs_fs st) (new_name (current_num st)))"
  "imported_files (after_copy env ph f copied st)
     = imported_files st @ [new_name (current_num st)]"
  "current_num (after_copy env ph f copied st) = Suc (current_num st)"
  "out (after_copy env ph f copied st)
     = out st
       @ snd (stamp_if_requested ph (exif (item env f)) (new_name (current_num st)) copied)
       @ snd (create_thumbnail (thumb (item env f)) f (thumbs_fs st) (new_name (current_num st)))
       @ [''Imported: '' @ f @ '' -> '' @ new_name (current_num st) @ '' (with thumbnail)'']"
  by (simp_all add: after_copy_def Let_def)

lemma import_one_Inr:
  assumes "map_of src f = Some (File c)" and "copy_error (item env f) = None"
  shows "import_one env ph src f st
     = Inr (after_copy env ph f (copied_to c (new_name (current_num st)) (images_fs st)) st)"
  using assms by (simp add: import_one_def copy2_File)

lemma import_one_Inl:
  "import_one env ph src f st = Inl x \<longleftrightarrow>
     (map_of src f = None \<and> x = FileNotFoundError)
     \<or> (map_of src f = Some Dir \<and> x = IsADirectoryError)
     \<or> (\<exists>c e. map_of src f = Some (File c) \<and> copy_error (item env f) = Some e \<and> x = OSError e)"
proof (cases "map_of src f")
  case None
  then show ?thesis by (auto simp: import_one_def)
next
  case (Some e)
  show ?thesis
  proof (cases e)
    case Dir
    then have "import_one env ph src f st = Inl IsADirectoryError"
      using Some by (simp add: import_one_def copy2_def)
    then show ?thesis using Some Dir by auto
  next
    case (File c)
    show ?thesis
    proof (cases "copy_error (item env f)")
      case None
      then have "import_one env ph src f st
          = Inr (after_copy env ph f (copied_to c (new_name (current_num st)) (images_fs st)) st)"
        using Some File by (simp add: import_one_Inr)
      then show ?thesis using Some File None by auto
    next
      case (Some m)
      then have "import_one env ph src f st = Inl (OSError m)"
        using \<open>map_of src f = Some e\<close> File by (simp add: import_one_def copy2_def)
      then show ?thesis using \<open>map_of src f = Some e\<close> File Some by auto
    qed
  qed
qed

lemma import_one_Inr_D:
  assumes "import_one env ph src f st = Inr st'"
  obtains c where "map_of src f = Some (File c)" and "copy_error (item env f) = None"
    and "st' = after_copy env ph f (copied_to c (new_name (current_num st)) (images_fs st)) st"
proof (cases "map_of src f")
  case None
  then show ?thesis using assms by (simp add: import_one_def)
next
  case (Some e)
  show ?thesis
  proof (cases e)
    case Dir
    then show ?thesis using assms Some by (simp add: import_one_def copy2_def)
  next
    case (File c)
    show ?thesis
    proof (cases "copy_error (item env f)")
      case None
      then show ?thesis using assms Some File that [of c] by (simp add: import_one_Inr)
    next
      case (Some m)
      then show ?thesis using assms \<open>map_of src f = Some e\<close> File
        by (simp add: import_one_def copy2_def)
    qed
  qed
qed

lemma copies_succeed_Nil: "copies_succeed env src []"
  by (simp add: copies_succeed_def)

lemma copies_succeed_Cons:
  "copies_succeed env src (f # fs) \<longleftrightarrow>
     (\<exists>c. map_of src f = Some (File c)) \<and> copy_error (item env f) = None
     \<and> copies_succeed env src fs"
  by (auto simp: copies_succeed_def split: option.splits entry.splits)

lemma import_loop_append:
  "import_loop env ph src (xs @ ys) st =
     (case import_loop env ph src xs st of
        Inl x \<Rightarrow> Inl x
      | Inr s \<Rightarrow> import_loop env ph src ys s)"
  by (induction xs arbitrary: st) (simp_all split: sum.splits)

lemma import_loop_succeeds:
  "copies_succeed env src fs \<Longrightarrow> \<exists>st'. import_loop env ph src fs st = Inr st'"
proof (induction fs arbitrary: st)
  case Nil
  show ?case by simp
next
  case (Cons f fs)
  from Cons.prems obtain c where c: "map_of src f = Some (File c)"
    and e: "copy_error (item env f) = None" and r: "copies_succeed env src fs"
    by (auto simp: copies_succeed_Cons)
  show ?case
    using Cons.IH [OF r] by (simp add: import_one_Inr [OF c e])
qed

lemma import_one_counters:
  assumes "import_one env ph src f st = Inr st'"
  shows "imported_files st' = imported_files st @ [new_name (current_num st)]"
    and "current_num st' = Suc (current_num st)"
  using assms by (auto elim!: import_one_Inr_D simp: after_copy_fields)

lemma import_loop_counters:
  "import_loop env ph src fs st = Inr st' \<Longrightarrow>
   imported_files st' = imported_files st @ map new_name [current_num st ..< current_num st + length fs]
   \<and> current_num st' = current_num st + length fs"
proof (induction fs arbitrary: st)
  case Nil
  then show ?case by simp
next
  case (Cons f fs)
  from Cons.prems obtain s where s: "import_one env ph src f st = Inr s"
    and l: "import_loop env ph src fs s = Inr st'"
    by (auto split: sum.splits)
  have u: "[current_num st ..< current_num st + length (f # fs)]
           = current_num st # [Suc (current_num st) ..< Suc (current_num st) + length fs]"
    by (simp add: upt_conv_Cons del: upt_Suc)
  have "imported_files st'
          = imported_files s @ map new_name [current_num s ..< current_num s + length fs]"
    and "current_num st' = current_num s + length fs"
    using Cons.IH [OF l] by blast+
  then show ?case
    unfolding u using import_one_counters [OF s] by (simp del: upt_Suc)
qed

lemma import_one_frame:
  assumes "import_one env ph src f st = Inr st'" and "n \<noteq> new_name (current_num st)"
  shows "map_of (images_fs st') n = map_of (images_fs st) n"
    and "map_of (thumbs_fs st') n = map_of (thumbs_fs st) n"
  using assms
  by (auto elim!: import_one_Inr_D simp: after_copy_fields stamp_other copied_to_other thumb_other)

lemma import_loop_frame:
  "import_loop env ph src fs st = Inr st' \<Longrightarrow>
   (\<forall>i < length fs. n \<noteq> new_name (current_num st + i)) \<Longrightarrow>
   map_of (images_fs st') n = map_of (images_fs st) n
   \<and> map_of (thumbs_fs st') n = map_of (thumbs_fs st) n"
proof (induction fs arbitrary: st)
  case Nil
  then show ?case by simp
next
  case (Cons f fs)
  from Cons.prems(1) obtain s where s: "import_one env ph src f st = Inr s"
    and l: "import_loop env ph src fs s = Inr st'"
    by (auto split: sum.splits)
  have n0: "n \<noteq> new_name (current_num st)"
    using Cons.prems(2) by force
  have c: "current_num s = Suc (current_num st)"
    using import_one_counters [OF s] by simp
  have "\<forall>i < length fs. n \<noteq> new_name (current_num s + i)"
  proof (intro allI impI)
    fix i assume "i < length fs"
    then have "Suc i < length (f # fs)" by simp
    then have "n \<noteq> new_name (current_num st + Suc i)" using Cons.prems(2) by blast
    then show "n \<noteq> new_name (current_num s + i)" using c by simp
  qed
  then show ?case
    using Cons.IH [OF l] import_one_frame [OF s n0] by simp
qed

lemma import_one_present:
  assumes "import_one env ph src f st = Inr st'"
  shows "map_of (images_fs st') (new_name (current_num st)) \<noteq> None"
proof -
  from assms obtain c where
    "st' = after_copy env ph f (copied_to c (new_name (current_num st)) (images_fs st)) st"
    by (rule import_one_Inr_D)
  then show ?thesis
    by (simp add: after_copy_fields stamp_None copied_to_present)
qed

lemma import_one_mono:
  assumes "import_one env ph src f st = Inr st'" and "map_of (images_fs st) n \<noteq> None"
  shows "map_of (images_fs st') n \<noteq> None"
proof -
  from assms(1) obtain c where
    "st' = after_copy env ph f (copied_to c (new_name (current_num st)) (images_fs st)) st"
    by (rule import_one_Inr_D)
  then show ?thesis
    using assms(2) by (simp add: after_copy_fields stamp_None copied_to_mono)
qed

lemma import_loop_mono:
  "import_loop env ph src fs st = Inr st' \<Longrightarrow> map_of (images_fs st) n \<noteq> None \<Longrightarrow>
   map_of (images_fs st') n \<noteq> None"
proof (induction fs arbitrary: st)
  case Nil
  then show ?case by simp
next
  case (Cons f fs)
  from Cons.prems(1) obtain s where s: "import_one env ph src f st = Inr s"
    and l: "import_loop env ph src fs s = Inr st'"
    by (auto split: sum.splits)
  show ?case
    by (rule Cons.IH [OF l import_one_mono [OF s Cons.prems(2)]])
qed

lemma import_one_out:
  assumes "import_one env ph src f st = Inr st'"
  shows "set (out st) \<subseteq> set (out st')"
  using assms by (auto elim!: import_one_Inr_D simp: after_copy_fields)

lemma import_loop_out:
  "import_loop env ph src fs st = Inr st' \<Longrightarrow> set (out st) \<subseteq> set (out st')"
proof (induction fs arbitrary: st)
  case Nil
  then show ?case by simp
next
  case (Cons f fs)
  from Cons.prems(1) obtain s where s: "import_one env ph src f st = Inr s"
    and l: "import_loop env ph src fs s = Inr st'"
    by (auto split: sum.splits)
  show ?case
    using Cons.IH [OF l] import_one_out [OF s] by blast
qed

lemma import_loop_nth:
  assumes "import_loop env ph src fs st = Inr st'" and "i < length fs"
  obtains sa sb where "import_loop env ph src (take i fs) st = Inr sa"
    and "import_one env ph src (fs ! i) sa = Inr sb"
    and "import_loop env ph src (drop (Suc i) fs) sb = Inr st'"
    and "current_num sa = current_num st + i"
proof -
  have fs: "fs = take i fs @ (fs ! i # drop (Suc i) fs)"
    using assms(2) by (simp add: id_take_nth_drop)
  have "import_loop env ph src (take i fs @ (fs ! i # drop (Suc i) fs)) st = Inr st'"
    using assms(1) fs by simp
  then obtain sa where sa: "import_loop env ph src (take i fs) st = Inr sa"
    and r: "import_loop env ph src (fs ! i # drop (Suc i) fs) sa = Inr st'"
    by (auto simp: import_loop_append split: sum.splits)
  from r obtain sb where sb: "import_one env ph src (fs ! i) sa = Inr sb"
    and l: "import_loop env ph src (drop (Suc i) fs) sb = Inr st'"
    by (auto split: sum.splits)
  have "current_num sa = current_num st + i"
    using import_loop_counters [OF sa] assms(2) by simp
  then show thesis using that sa sb l by blast
qed

lemma str_nat_small: "n < 10 \<Longrightarrow> str_nat n = [digit_char n]"
  by (simp add: str_nat.simps)

lemma str_nat_big: "10 \<le> n \<Longrightarrow> str_nat n = str_nat (n div 10) @ [digit_char (n mod 10)]"
  by (subst str_nat.simps) simp

lemma replicate_2_3: "replicate 2 c = [c, c]" "replicate 3 c = [c, c, c]"
  by (simp_all add: numeral_2_eq_2 numeral_3_eq_3)

lemmas name_eval = new_name_def fmt04d_def str_nat_small str_nat_big digit_char_def
  replicate_2_3

lemma distinct_new_names: "distinct (map new_name [a ..< b])"
  by (simp add: distinct_map inj_on_def new_name_inj)

lemma import_images_completes:
  assumes "copies_succeed env src image_files"
  obtains st where "import_images env ph src image_files imgs thbs S printed = Inr st"
    and "imported_files st = map new_name [S + 1 ..< S + 1 + length image_files]"
proof -
  obtain st where st: "import_loop env ph src image_files
      \<lparr>images_fs = imgs, thumbs_fs = thbs, imported_files = [],
       current_num = S + 1, out = printed\<rparr> = Inr st"
    using import_loop_succeeds [OF assms] by blast
  have "import_images env ph src image_files imgs thbs S printed = Inr st"
    using st by (simp add: import_images_def)
  moreover have "imported_files st = map new_name [S + 1 ..< S + 1 + length image_files]"
    using import_loop_counters [OF st] by simp
  ultimately show thesis using that by blast
qed

text \<open>
  Claim C1.  \<^verbatim>\<open>main\<close> runs the loop of lines 200 to 216 with the allocator's result \<open>S\<close> and the
  enumerator's list.  When no copy step fails the loop finishes, the names it admits are
  those of the identifiers \<open>S + 1\<close>, ..., \<open>S + N\<close> in this order, all different, the item
  at position \<open>i\<close> of the enumeration gets the identifier \<open>S + 1 + i\<close> and is present in
  the destination collection under it, and the counter ends at \<open>S + N + 1\<close>: one step per
  admitted item.
\<close>

theorem import_images_identifiers:
  assumes "copies_succeed env src image_files"
  shows "\<exists>st. import_images env ph src image_files imgs thbs S printed = Inr st
     \<and> imported_files st = map new_name [S + 1 ..< S + 1 + length image_files]
     \<and> current_num st = S + 1 + length image_files
     \<and> distinct (imported_files st)
     \<and> (\<forall>i < length image_files.
          imported_files st ! i = new_name (S + 1 + i)
          \<and> map_of (images_fs st) (new_name (S + 1 + i)) \<noteq> None
          \<and> (''Imported: '' @ image_files ! i @ '' -> '' @ new_name (S + 1 + i)
               @ '' (with thumbnail)'') \<in> set (out st))"
proof -
  let ?st0 = "\<lparr>images_fs = imgs, thumbs_fs = thbs, imported_files = [],
               current_num = S + 1, out = printed\<rparr>"
  obtain st where st: "import_loop env ph src image_files ?st0 = Inr st"
    using import_loop_succeeds [OF assms] by blast
  have run: "import_images env ph src image_files imgs thbs S printed = Inr st"
    using st by (simp add: import_images_def)
  have names: "imported_files st = map new_name [S + 1 ..< S + 1 + length image_files]"
    and num: "current_num st = S + 1 + length image_files"
    using import_loop_counters [OF st] by simp_all
  have dist: "distinct (imported_files st)"
    unfolding names by (rule distinct_new_names)
  have each: "imported_files st ! i = new_name (S + 1 + i)
          \<and> map_of (images_fs st) (new_name (S + 1 + i)) \<noteq> None
          \<and> (''Imported: '' @ image_files ! i @ '' -> '' @ new_name (S + 1 + i)
               @ '' (with thumbnail)'') \<in> set (out st)"
    if i: "i < length image_files" for i
  proof -
    obtain sa sb where sa: "import_loop env ph src (take i image_files) ?st0 = Inr sa"
      and sb: "import_one env ph src (image_files ! i) sa = Inr sb"
      and rest: "import_loop env ph src (drop (Suc i) image_files) sb = Inr st"
      and c: "current_num sa = current_num ?st0 + i"
      using import_loop_nth [OF st i] by blast
    have c': "current_num sa = S + 1 + i" using c by simp
    have 1: "imported_files st ! i = new_name (S + 1 + i)"
      unfolding names using i by (simp del: upt_Suc)
    have "map_of (images_fs sb) (new_name (S + 1 + i)) \<noteq> None"
      using import_one_present [OF sb] c' by simp
    then have 2: "map_of (images_fs st) (new_name (S + 1 + i)) \<noteq> None"
      by (rule import_loop_mono [OF rest])
    have "(''Imported: '' @ image_files ! i @ '' -> '' @ new_name (S + 1 + i)
               @ '' (with thumbnail)'') \<in> set (out sb)"
      using sb c' by (auto elim!: import_one_Inr_D simp: after_copy_fields)
    then have 3: "(''Imported: '' @ image_files ! i @ '' -> '' @ new_name (S + 1 + i)
               @ '' (with thumbnail)'') \<in> set (out st)"
      using import_loop_out [OF rest] by blast
    show ?thesis using 1 2 3 by blast
  qed
  show ?thesis using run names num dist each by blast
qed

theorem import_images_identifiers_witness:
  "copies_succeed
     \<lparr>item = (\<lambda>f. \<lparr>copy_error = None, exif = (\<lambda>p. ExifSaved ''x''), thumb = ThumbSaved ''t''\<rparr>),
      index_write = Written\<rparr>
     [(''b.jpg'', File ''B''), (''a.jpg'', File ''A'')] [''a.jpg'', ''b.jpg'']
   \<and> (\<exists>st. import_images
         \<lparr>item = (\<lambda>f. \<lparr>copy_error = None, exif = (\<lambda>p. ExifSaved ''x''), thumb = ThumbSaved ''t''\<rparr>),
          index_write = Written\<rparr>
         None [(''b.jpg'', File ''B''), (''a.jpg'', File ''A'')] [''a.jpg'', ''b.jpg'']
         [] [] 7 [] = Inr st
       \<and> imported_files st = [''LOP25-0008.jpeg'', ''LOP25-0009.jpeg'']
       \<and> current_num st = 10)"
proof -
  let ?env = "\<lparr>item = (\<lambda>f. \<lparr>copy_error = None, exif = (\<lambda>p. ExifSaved ''x''),
                          thumb = ThumbSaved ''t''\<rparr>),
               index_write = Written\<rparr>"
  have h: "copies_succeed ?env [(''b.jpg'', File ''B''), (''a.jpg'', File ''A'')]
             [''a.jpg'', ''b.jpg'']"
    by (simp add: copies_succeed_def)
  have n: "map new_name [7 + 1 ..< 7 + 1 + length [''a.jpg'', ''b.jpg'']]
             = [''LOP25-0008.jpeg'', ''LOP25-0009.jpeg'']"
    by (simp add: name_eval upt_rec)
  show ?thesis
    using h import_images_identifiers [OF h, of None "[]" "[]" 7 "[]"] n
    by auto
qed

section \<open>The whole run\<close>

text \<open>
  Claim C10.  In every run over a source directory with at least one image, in which every
  copy succeeds, an index path is given, the merge in memory reaches the write (the
  document it starts from has no \<^verbatim>\<open>images\<close> key or an array under it) and the write fails,
  \<^verbatim>\<open>main\<close> still returns 0, the last line printed reports the full number of admitted
  items, and the failure shows only as a printed line, never in the status.
\<close>

theorem main_exit_status_on_write_failure:
  assumes "source_dir w = Directory src"
    and "get_image_files (map fst src) \<noteq> []"
    and "copies_succeed env src (get_image_files (map fst src))"
    and "truthy (index_file a) = Some path"
    and "entries_of (fst (load_index (index w))) = Some old"
    and "index_write env = WriteFailed e left"
  shows "\<exists>w'. main env a w = Inr (0, w')
          \<and> last (stdout w') = ''Successfully imported ''
                @ str_nat (length (get_image_files (map fst src))) @ '' images''
          \<and> (''Error: Could not write TOML file: '' @ e) \<in> set (stdout w')
          \<and> index w' = left"
proof -
  let ?fs = "get_image_files (map fst src)"
  let ?S = "find_highest_serial_number (Some (mkdir (images w)))"
  let ?printed = "(stdout w @ [''Found highest serial number: '' @ fmt04d ?S])
        @ [''Found '' @ str_nat (length ?fs) @ '' image files to import'']"
  obtain st where run: "import_images env (photographer a) src ?fs (mkdir (images w))
        (mkdir (thumbs w)) ?S ?printed = Inr st"
    and names: "imported_files st = map new_name [?S + 1 ..< ?S + 1 + length ?fs]"
    using import_images_completes [OF assms(3)] by blast
  have len: "length (imported_files st) = length ?fs"
    unfolding names by (simp del: upt_Suc)
  have upd: "update_toml_index (index_write env) path (index w) (imported_files st)
      = Inr (left, snd (load_index (index w)) @ [''Error: Could not write TOML file: '' @ e])"
    using merged_index_entries [OF assms(5)] assms(6) by (simp add: update_toml_index_def)
  let ?w = "w\<lparr>images := Some (images_fs st), thumbs := Some (thumbs_fs st), index := left,
             stdout := out st
               @ (snd (load_index (index w)) @ [''Error: Could not write TOML file: '' @ e])
               @ [''Successfully imported '' @ str_nat (length (imported_files st))
                  @ '' images'']\<rparr>"
  have "main env a w = Inr (0, ?w)"
    using assms(1,2,4) run upd by (simp add: main_def Let_def)
  moreover have "last (stdout ?w) = ''Successfully imported ''
                @ str_nat (length ?fs) @ '' images''"
    using len by simp
  moreover have "(''Error: Could not write TOML file: '' @ e) \<in> set (stdout ?w)"
    by simp
  moreover have "index ?w = left" by simp
  ultimately show ?thesis by blast
qed


theorem main_exit_status_on_write_failure_witness:
  "source_dir \<lparr>source_dir = Directory [(''b.jpg'', File ''B''), (''a.jpg'', File ''A'')],
                images = None, thumbs = None, index = Absent, stdout = []\<rparr>
     = Directory [(''b.jpg'', File ''B''), (''a.jpg'', File ''A'')]
   \<and> get_image_files (map fst [(''b.jpg'', File ''B''), (''a.jpg'', File ''A'')]) = [''a.jpg'', ''b.jpg'']
   \<and> copies_succeed
        \<lparr>item = (\<lambda>f. \<lparr>copy_error = None, exif = (\<lambda>p. ExifSaved ''x''), thumb = ThumbSaved ''t''\<rparr>),
         index_write = WriteFailed ''Permission denied'' Absent\<rparr>
        [(''b.jpg'', File ''B''), (''a.jpg'', File ''A'')] [''a.jpg'', ''b.jpg'']
   \<and> truthy (index_file \<lparr>source = ''in'', destination = ''site'', photographer = None,
                          index_file = Some ''index.toml''\<rparr>) = Some ''index.toml''
   \<and> (\<exists>w'. main
          \<lparr>item = (\<lambda>f. \<lparr>copy_error = None, exif = (\<lambda>p. ExifSaved ''x''), thumb = ThumbSaved ''t''\<rparr>),
           index_write = WriteFailed ''Permission denied'' Absent\<rparr>
          \<lparr>source = ''in'', destination = ''site'', photographer = None,
           index_file = Some ''index.toml''\<rparr>
          \<lparr>source_dir = Directory [(''b.jpg'', File ''B''), (''a.jpg'', File ''A'')],
           images = None, thumbs = None, index = Absent, stdout = []\<rparr>
          = Inr (0, w')
        \<and> last (stdout w') = ''Successfully imported 2 images''
        \<and> ''Error: Could not write TOML file: Permission denied'' \<in> set (stdout w')
        \<and> index w' = Absent)"
proof -
  let ?src = "[(''b.jpg'', File ''B''), (''a.jpg'', File ''A'')]"
  let ?w = "\<lparr>source_dir = Directory ?src, images = None, thumbs = None, index = Absent,
             stdout = []\<rparr>"
  let ?env = "\<lparr>item = (\<lambda>f. \<lparr>copy_error = None, exif = (\<lambda>p. ExifSaved ''x''),
                          thumb = ThumbSaved ''t''\<rparr>),
               index_write = WriteFailed ''Permission denied'' Absent\<rparr>"
  let ?a = "\<lparr>source = ''in'', destination = ''site'', photographer = None,
             index_file = Some ''index.toml''\<rparr>"
  have g: "get_image_files (map fst ?src) = [''a.jpg'', ''b.jpg'']"
    by code_simp
  have 1: "source_dir ?w = Directory ?src" by simp
  have 2: "get_image_files (map fst ?src) \<noteq> []" using g by simp
  have 3: "copies_succeed ?env ?src (get_image_files (map fst ?src))"
    unfolding g by (simp add: copies_succeed_def)
  have 4: "truthy (index_file ?a) = Some ''index.toml''"
    by (simp add: truthy_def)
  have 5: "entries_of (fst (load_index (index ?w))) = Some []"
    by (simp add: entries_of_def load_index_def)
  have 6: "index_write ?env = WriteFailed ''Permission denied'' Absent" by simp
  have s: "str_nat (length [''a.jpg'', ''b.jpg'']) = ''2''"
    by (simp add: str_nat_small digit_char_def)
  show ?thesis
    using main_exit_status_on_write_failure [OF 1 2 3 4 5 6] 1 3 4 g s
    by simp
qed

section \<open>Failures of one item and the rest of the batch\<close>







lemma exif_failed:
  assumes "truthy ph = Some p"
    and "oc p = ExifFailedEarly e \<or> oc p = ExifFailedInSave e left"
  shows "snd (stamp_if_requested ph oc k d)
           = [''Warning: Could not update EXIF data for '' @ k @ '': '' @ e]"
  using assms by (auto simp: stamp_if_requested_def update_exif_artist_def)




section \<open>The metadata stamper\<close>

text \<open>
  Claim C9, as the code has it.  When a photographer is given and the stamper fails for a
  copied item, at any of its calls, the turn of the loop still completes and the warning
  printed names the destination file.  When the call that raises comes before the save
  (opening the image, loading or dumping the EXIF data), the destination collection is
  exactly what the copy left.
\<close>

theorem stamping_failure_is_caught:
  assumes "map_of src f = Some (File c)" and "copy_error (item env f) = None"
    and "truthy ph = Some p"
    and "exif (item env f) p = ExifFailedEarly e \<or> exif (item env f) p = ExifFailedInSave e left"
  shows "\<exists>st'. import_one env ph src f st = Inr st'
      \<and> (''Warning: Could not update EXIF data for '' @ new_name (current_num st) @ '': '' @ e)
          \<in> set (out st')
      \<and> (exif (item env f) p = ExifFailedEarly e
           \<longrightarrow> copy2 (File c) None (new_name (current_num st)) (images_fs st)
                = Inr (images_fs st'))"
proof -
  let ?k = "new_name (current_num st)"
  let ?st = "after_copy env ph f (copied_to c ?k (images_fs st)) st"
  have w: "snd (stamp_if_requested ph (exif (item env f)) ?k (copied_to c ?k (images_fs st)))
      = [''Warning: Could not update EXIF data for '' @ ?k @ '': '' @ e]"
    by (rule exif_failed [of ph p "exif (item env f)" e left, OF assms(3,4)])
  have s: "fst (stamp_if_requested ph (exif (item env f)) ?k (copied_to c ?k (images_fs st)))
      = copied_to c ?k (images_fs st)"
    if "exif (item env f) p = ExifFailedEarly e"
    using assms(3) that by (simp add: stamp_if_requested_def update_exif_artist_def)
  have "import_one env ph src f st = Inr ?st"
    by (rule import_one_Inr [OF assms(1,2)])
  moreover have "(''Warning: Could not update EXIF data for '' @ ?k @ '': '' @ e)
          \<in> set (out ?st)"
    by (simp add: after_copy_fields w)
  moreover have "exif (item env f) p = ExifFailedEarly e
      \<longrightarrow> copy2 (File c) None ?k (images_fs st) = Inr (images_fs ?st)"
    by (simp add: copy2_File after_copy_fields s)
  ultimately show ?thesis by blast
qed

theorem stamping_failure_is_caught_witness:
  "map_of two_images ''a.jpg'' = Some (File ''A'')
   \<and> copy_error (item first_fails ''a.jpg'') = None
   \<and> truthy (Some ''Ann'') = Some ''Ann''
   \<and> exif (item first_fails ''a.jpg'') ''Ann'' = ExifFailedEarly ''no EXIF''
   \<and> (\<exists>st'. import_one first_fails (Some ''Ann'') two_images ''a.jpg'' fresh_state = Inr st'
         \<and> images_fs st' = [(''LOP25-0001.jpeg'', File ''A'')]
         \<and> ''Warning: Could not update EXIF data for LOP25-0001.jpeg: no EXIF''
             \<in> set (out st'))"
proof -
  have 1: "map_of two_images ''a.jpg'' = Some (File ''A'')"
    by (simp add: two_images_def)
  have 2: "copy_error (item first_fails ''a.jpg'') = None"
    by (simp add: first_fails_def)
  have 3: "truthy (Some ''Ann'') = Some ''Ann''"
    by (simp add: truthy_def)
  have 4: "exif (item first_fails ''a.jpg'') ''Ann'' = ExifFailedEarly ''no EXIF''"
    by (simp add: first_fails_def)
  have alt: "exif (item first_fails ''a.jpg'') ''Ann'' = ExifFailedEarly ''no EXIF''
      \<or> exif (item first_fails ''a.jpg'') ''Ann'' = ExifFailedInSave ''no EXIF'' ''''"
    using 4 by simp
  have n: "new_name (current_num fresh_state) = ''LOP25-0001.jpeg''"
    by (simp add: fresh_state_def name_eval)
  have c: "copy2 (File ''A'') None ''LOP25-0001.jpeg'' (images_fs fresh_state)
             = Inr [(''LOP25-0001.jpeg'', File ''A'')]"
    by (simp add: copy2_def write_file_def fresh_state_def)
  show ?thesis
    using stamping_failure_is_caught [OF 1 2 3 alt, of fresh_state] 1 2 3 4
    unfolding n c by auto
qed

text \<open>
  Claim C9 as the specification words it covers every error of the stamper.  The stamper
  writes the image back into the file it read (line 87), with no copy kept aside and
  nothing restored in the \<^verbatim>\<open>except\<close> branch: when the save raises after it has opened the
  file for writing, the error is caught and reported, and the file holds what the save left
  (here nothing), not the copied content.
\<close>

theorem stamping_failure_in_save_counterexample:
  "update_exif_artist (ExifFailedInSave ''cannot write mode RGBA as JPEG'' '''')
     ''LOP25-0001.jpeg'' [(''LOP25-0001.jpeg'', File ''RGBA image'')]
   = ([(''LOP25-0001.jpeg'', File '''')],
      [''Warning: Could not update EXIF data for LOP25-0001.jpeg: cannot write mode RGBA as JPEG''])"
  by (simp add: update_exif_artist_def overwrite_def)

section \<open>Consecutive runs\<close>

lemma find_highest_Some:
  "find_highest_serial_number (Some entries) = Max (insert 0 (serial_numbers entries))"
  by (simp add: find_highest_serial_number_def foldl_scan_entry_Max serial_numbers_alt)

lemma set_update_subset: "set (AList.update k v d) \<subseteq> insert (k, v) (set d)"
  by (induction d) auto

lemma regular_write_file: "regular_files d \<Longrightarrow> regular_files (write_file k c d)"
  using set_update_subset [of k "File c" d]
  by (auto simp: regular_files_def write_file_def list_all_iff)

lemma regular_overwrite: "regular_files d \<Longrightarrow> regular_files (overwrite k c d)"
  using regular_write_file [of d k c]
  by (simp add: overwrite_def write_file_def split: option.splits entry.splits)

lemma regular_copied_to: "regular_files d \<Longrightarrow> regular_files (copied_to c k d)"
  by (simp add: copied_to_def regular_write_file split: option.splits entry.splits)

lemma regular_stamp:
  "regular_files d \<Longrightarrow> regular_files (fst (stamp_if_requested ph oc k d))"
  by (auto simp: stamp_if_requested_def update_exif_artist_def regular_overwrite
      split: option.splits exif_outcome.splits)

lemma import_one_regular:
  assumes "import_one env ph src f st = Inr st'" and "regular_files (images_fs st)"
  shows "regular_files (images_fs st')"
proof -
  from assms(1) obtain c where
    "st' = after_copy env ph f (copied_to c (new_name (current_num st)) (images_fs st)) st"
    by (rule import_one_Inr_D)
  then show ?thesis
    using assms(2) by (simp add: after_copy_fields regular_stamp regular_copied_to)
qed

lemma import_loop_regular:
  "import_loop env ph src fs st = Inr st' \<Longrightarrow> regular_files (images_fs st) \<Longrightarrow>
   regular_files (images_fs st')"
proof (induction fs arbitrary: st)
  case Nil
  then show ?case by simp
next
  case (Cons f fs)
  from Cons.prems(1) obtain s where s: "import_one env ph src f st = Inr s"
    and l: "import_loop env ph src fs s = Inr st'"
    by (auto split: sum.splits)
  show ?case
    by (rule Cons.IH [OF l import_one_regular [OF s Cons.prems(2)]])
qed

lemma serial_numbers_regular:
  assumes "regular_files d"
  shows "serial_numbers d
     = {int_of_digits g | name g. map_of d name \<noteq> None \<and> pattern_match name = Some g}"
proof -
  have "(\<exists>content. (name, File content) \<in> set d) \<longleftrightarrow> map_of d name \<noteq> None" for name
  proof
    assume "\<exists>content. (name, File content) \<in> set d"
    then show "map_of d name \<noteq> None"
      using weak_map_of_SomeI by fastforce
  next
    assume "map_of d name \<noteq> None"
    then obtain e where e: "map_of d name = Some e" by auto
    then have m: "(name, e) \<in> set d" by (rule map_of_SomeD)
    then have "is_file e" using assms by (auto simp: regular_files_def list_all_iff)
    then obtain content where "e = File content" by (cases e) simp_all
    then show "\<exists>content. (name, File content) \<in> set d" using m by blast
  qed
  then have "serial_numbers d
     = {int_of_digits g | name g rest. map_of d name \<noteq> None \<and> length g = 4
          \<and> list_all isdigit g \<and> name = ''LOP25-'' @ g @ ''.jpeg'' @ rest}"
    unfolding serial_numbers_def by blast
  also have "\<dots> = {int_of_digits g | name g. map_of d name \<noteq> None \<and> pattern_match name = Some g}"
    unfolding pattern_match_Some_iff by blast
  finally show ?thesis .
qed

lemma import_loop_names:
  assumes "import_loop env ph src fs st = Inr st'"
  shows "map_of (images_fs st') n \<noteq> None \<longleftrightarrow>
           map_of (images_fs st) n \<noteq> None
           \<or> (\<exists>i < length fs. n = new_name (current_num st + i))"
proof (cases "\<exists>i < length fs. n = new_name (current_num st + i)")
  case True
  then obtain i where i: "i < length fs" and n: "n = new_name (current_num st + i)" by blast
  obtain sa sb where sb: "import_one env ph src (fs ! i) sa = Inr sb"
    and rest: "import_loop env ph src (drop (Suc i) fs) sb = Inr st'"
    and c: "current_num sa = current_num st + i"
    using import_loop_nth [OF assms i] by blast
  have "map_of (images_fs st') n \<noteq> None"
    using import_loop_mono [OF rest] import_one_present [OF sb] c n by simp
  then show ?thesis using True by blast
next
  case False
  then have "\<forall>i < length fs. n \<noteq> new_name (current_num st + i)" by blast
  then have "map_of (images_fs st') n = map_of (images_fs st) n"
    using import_loop_frame [OF assms] by blast
  then show ?thesis using False by metis
qed

lemma import_loop_serial_numbers:
  assumes run: "import_loop env ph src fs st = Inr st'"
    and reg: "regular_files (images_fs st)"
    and lim: "current_num st + length fs \<le> 10000"
  shows "serial_numbers (images_fs st')
           = serial_numbers (images_fs st) \<union> {current_num st ..< current_num st + length fs}"
proof -
  let ?c = "current_num st"
  have new: "pattern_match (new_name (?c + i)) = Some g \<longleftrightarrow> g = fmt04d (?c + i)"
    if "i < length fs" for i g
    using that lim pattern_match_new_name_small [of "?c + i"] by auto
  have "serial_numbers (images_fs st')
      = {int_of_digits g | name g. map_of (images_fs st') name \<noteq> None
            \<and> pattern_match name = Some g}"
    by (rule serial_numbers_regular [OF import_loop_regular [OF run reg]])
  also have "\<dots> = {int_of_digits g | name g. map_of (images_fs st) name \<noteq> None
            \<and> pattern_match name = Some g}
        \<union> {int_of_digits g | i g. i < length fs \<and> pattern_match (new_name (?c + i)) = Some g}"
    unfolding import_loop_names [OF run] by blast
  also have "{int_of_digits g | i g. i < length fs \<and> pattern_match (new_name (?c + i)) = Some g}
        = {?c + i | i. i < length fs}"
  proof (rule set_eqI, rule iffI)
    fix x
    assume "x \<in> {int_of_digits g | i g. i < length fs
                    \<and> pattern_match (new_name (?c + i)) = Some g}"
    then obtain i g where "x = int_of_digits g" "i < length fs"
      "pattern_match (new_name (?c + i)) = Some g" by blast
    then have "x = ?c + i \<and> i < length fs"
      using new [of i g] by (simp add: int_of_digits_fmt04d)
    then show "x \<in> {?c + i | i. i < length fs}" by blast
  next
    fix x
    assume "x \<in> {?c + i | i. i < length fs}"
    then obtain i where "x = ?c + i" "i < length fs" by blast
    then have "x = int_of_digits (fmt04d (?c + i)) \<and> i < length fs
        \<and> pattern_match (new_name (?c + i)) = Some (fmt04d (?c + i))"
      using new [of i "fmt04d (?c + i)"] by (simp add: int_of_digits_fmt04d)
    then show "x \<in> {int_of_digits g | i g. i < length fs
                    \<and> pattern_match (new_name (?c + i)) = Some g}" by blast
  qed
  also have "{?c + i | i. i < length fs} = {?c ..< ?c + length fs}"
  proof (rule set_eqI, rule iffI)
    fix x
    assume "x \<in> {?c + i | i. i < length fs}"
    then show "x \<in> {?c ..< ?c + length fs}" by auto
  next
    fix x
    assume "x \<in> {?c ..< ?c + length fs}"
    then have "x = ?c + (x - ?c) \<and> x - ?c < length fs" by auto
    then show "x \<in> {?c + i | i. i < length fs}" by blast
  qed
  finally show ?thesis
    using serial_numbers_regular [OF reg] by simp
qed


lemma finite_serial_numbers: "finite (serial_numbers d)"
  by (simp add: serial_numbers_alt)

text \<open>
  Below the limit the next run starts where the last one ended.  When the destination
  collection holds regular files only, no copy of a non-empty batch fails and the
  identifiers stay within four digits, the scan of the collection the batch leaves returns
  \<open>S + N\<close>, the highest identifier admitted: the next run starts at \<open>S + N + 1\<close> and shares
  no identifier with this one.
\<close>

lemma next_run_starts_after_highest:
  assumes reg: "regular_files imgs" and ok: "copies_succeed env src fs" and ne: "fs \<noteq> []"
    and lim: "find_highest_serial_number (Some imgs) + length fs \<le> 9999"
  shows "\<exists>st. import_images env ph src fs imgs thbs (find_highest_serial_number (Some imgs))
                printed = Inr st
           \<and> find_highest_serial_number (Some (images_fs st))
               = find_highest_serial_number (Some imgs) + length fs"
proof -
  let ?S = "find_highest_serial_number (Some imgs)"
  let ?st0 = "\<lparr>images_fs = imgs, thumbs_fs = thbs, imported_files = [],
               current_num = ?S + 1, out = printed\<rparr>"
  obtain st where st: "import_loop env ph src fs ?st0 = Inr st"
    using import_loop_succeeds [OF ok] by blast
  have run: "import_images env ph src fs imgs thbs ?S printed = Inr st"
    using st by (simp add: import_images_def)
  have "serial_numbers (images_fs st)
      = serial_numbers (images_fs ?st0)
        \<union> {current_num ?st0 ..< current_num ?st0 + length fs}"
    by (rule import_loop_serial_numbers [OF st]) (use reg lim in simp_all)
  then have sn: "serial_numbers (images_fs st)
      = serial_numbers imgs \<union> {?S + 1 .. ?S + length fs}"
    by (simp add: atLeastLessThanSuc_atLeastAtMost)
  have S: "Max (insert 0 (serial_numbers imgs)) = ?S"
    by (simp add: find_highest_Some)
  have ne': "{?S + 1 .. ?S + length fs} \<noteq> {}"
    using ne by (cases fs) simp_all
  have "find_highest_serial_number (Some (images_fs st))
      = Max (insert 0 (serial_numbers imgs) \<union> {?S + 1 .. ?S + length fs})"
    by (simp add: find_highest_Some sn)
  also have "\<dots> = max (Max (insert 0 (serial_numbers imgs))) (Max {?S + 1 .. ?S + length fs})"
    using ne' by (intro Max_Un) (simp_all add: finite_serial_numbers)
  also have "\<dots> = ?S + length fs"
  proof -
    have "Max {?S + 1 .. ?S + length fs} = ?S + length fs"
      using ne' by (intro Max_eqI) auto
    then show ?thesis using S by simp
  qed
  finally show ?thesis using run by blast
qed

lemma scan_almost_full:
  "find_highest_serial_number (Some [(''LOP25-9999.jpeg'', File ''old'')]) = 9999"
  by code_simp

lemma scan_after_first_run:
  "find_highest_serial_number
     (Some [(''LOP25-9999.jpeg'', File ''old''), (''LOP25-10000.jpeg'', File ''A'')]) = 9999"
  by code_simp

lemma enumerate_one:
  "get_image_files [''a.jpg''] = [''a.jpg'']"
  "get_image_files [''b.jpg''] = [''b.jpg'']"
  by code_simp+

lemma names_9999:
  "fmt04d 9999 = ''9999''" "new_name 10000 = ''LOP25-10000.jpeg''" "str_nat (Suc 0) = ''1''"
  by (simp_all add: name_eval)

text \<open>
  Claim C2 at a destination whose highest identifier is 9999.  The first run admits
  \<^verbatim>\<open>a.jpg\<close> under the identifier 10000 and names it \<^verbatim>\<open>LOP25-10000.jpeg\<close>.  The scan of the
  second run does not read that name (its pattern wants a dot after four digits), finds
  9999 again, and admits \<^verbatim>\<open>b.jpg\<close> under the identifier 10000 too: the first run's image is
  overwritten.
\<close>

theorem identifier_reused_after_9999:
  "main all_succeed plain_args
     \<lparr>source_dir = Directory [(''a.jpg'', File ''A'')], images = Some almost_full,
      thumbs = Some [], index = Absent, stdout = []\<rparr>
   = Inr (0, \<lparr>source_dir = Directory [(''a.jpg'', File ''A'')],
              images = Some [(''LOP25-9999.jpeg'', File ''old''), (''LOP25-10000.jpeg'', File ''A'')],
              thumbs = Some [(''LOP25-10000.jpeg'', File ''small'')],
              index = Absent,
              stdout = [''Found highest serial number: 9999'',
                        ''Found 1 image files to import'',
                        ''Imported: a.jpg -> LOP25-10000.jpeg (with thumbnail)'',
                        ''Successfully imported 1 images'']\<rparr>)
   \<and> main all_succeed plain_args
     \<lparr>source_dir = Directory [(''b.jpg'', File ''B'')],
      images = Some [(''LOP25-9999.jpeg'', File ''old''), (''LOP25-10000.jpeg'', File ''A'')],
      thumbs = Some [(''LOP25-10000.jpeg'', File ''small'')], index = Absent, stdout = []\<rparr>
   = Inr (0, \<lparr>source_dir = Directory [(''b.jpg'', File ''B'')],
              images = Some [(''LOP25-9999.jpeg'', File ''old''), (''LOP25-10000.jpeg'', File ''B'')],
              thumbs = Some [(''LOP25-10000.jpeg'', File ''small'')],
              index = Absent,
              stdout = [''Found highest serial number: 9999'',
                        ''Found 1 image files to import'',
                        ''Imported: b.jpg -> LOP25-10000.jpeg (with thumbnail)'',
                        ''Successfully imported 1 images'']\<rparr>)"
  by (simp add: main_def Let_def mkdir_def scan_almost_full scan_after_first_run enumerate_one
      import_images_def import_one_def copy2_def after_copy_def stamp_if_requested_def
      truthy_def create_thumbnail_def write_file_def all_succeed_def plain_args_def
      names_9999 almost_full_def)

section \<open>The index after a run\<close>

text \<open>
  Claim C4, as the code has it.  The collection is the array under the top-level key
  \<^verbatim>\<open>images\<close> (the code has no key \<^verbatim>\<open>entries\<close>).  In every run with at least one admitted
  item, no failing copy and an index path, in which the document the merge starts from (the
  loaded one, or the empty one when the file is absent or unreadable) has no such key or an
  array under it and the write succeeds, the index file afterwards holds under \<^verbatim>\<open>images\<close>
  the earlier elements followed by one table per admitted filename, in admission order,
  each holding the filename under the key \<^verbatim>\<open>file\<close>.
\<close>

theorem main_appends_admitted_to_index:
  assumes "source_dir w = Directory src"
    and "get_image_files (map fst src) \<noteq> []"
    and "copies_succeed env src (get_image_files (map fst src))"
    and "truthy (index_file a) = Some path"
    and "entries_of (fst (load_index (index w))) = Some old"
    and "index_write env = Written"
  shows "\<exists>w' data. main env a w = Inr (0, w') \<and> index w' = Loadable data
          \<and> map_of data ''images''
              = Some (TArray (old @ map (\<lambda>name. TTable [(''file'', TString name)])
                   (map new_name
                     [find_highest_serial_number (Some (mkdir (images w))) + 1 ..<
                      find_highest_serial_number (Some (mkdir (images w))) + 1
                        + length (get_image_files (map fst src))])))"
proof -
  let ?fs = "get_image_files (map fst src)"
  let ?S = "find_highest_serial_number (Some (mkdir (images w)))"
  let ?printed = "(stdout w @ [''Found highest serial number: '' @ fmt04d ?S])
        @ [''Found '' @ str_nat (length ?fs) @ '' image files to import'']"
  obtain st where run: "import_images env (photographer a) src ?fs (mkdir (images w))
        (mkdir (thumbs w)) ?S ?printed = Inr st"
    and names: "imported_files st = map new_name [?S + 1 ..< ?S + 1 + length ?fs]"
    using import_images_completes [OF assms(3)] by blast
  let ?data = "AList.update ''images'' (TArray (old @ map file_entry (imported_files st)))
                 (ensure_images (fst (load_index (index w))))"
  have upd: "update_toml_index (index_write env) path (index w) (imported_files st)
      = Inr (Loadable ?data,
             snd (load_index (index w)) @ [''Updated TOML index file: '' @ path])"
    using merged_index_entries [OF assms(5)] assms(6) by (simp add: update_toml_index_def)
  let ?w = "w\<lparr>images := Some (images_fs st), thumbs := Some (thumbs_fs st),
             index := Loadable ?data,
             stdout := out st
               @ (snd (load_index (index w)) @ [''Updated TOML index file: '' @ path])
               @ [''Successfully imported '' @ str_nat (length (imported_files st))
                  @ '' images'']\<rparr>"
  have "main env a w = Inr (0, ?w)"
    using assms(1,2,4) run upd by (simp add: main_def Let_def)
  moreover have "index ?w = Loadable ?data" by simp
  moreover have "map_of ?data ''images''
      = Some (TArray (old @ map (\<lambda>name. TTable [(''file'', TString name)])
           (map new_name [?S + 1 ..< ?S + 1 + length ?fs])))"
    unfolding names by (simp add: AList.update_conv' file_entry_fun del: upt_Suc)
  ultimately show ?thesis by blast
qed

theorem main_appends_admitted_to_index_witness:
  "source_dir second_batch = Directory [(''c.jpg'', File ''C''), (''notes.txt'', File ''n'')]
   \<and> get_image_files (map fst [(''c.jpg'', File ''C''), (''notes.txt'', File ''n'')]) = [''c.jpg'']
   \<and> copies_succeed all_succeed [(''c.jpg'', File ''C''), (''notes.txt'', File ''n'')] [''c.jpg'']
   \<and> truthy (index_file index_args) = Some ''index.toml''
   \<and> index_write all_succeed = Written
   \<and> (\<exists>w' data. main all_succeed index_args second_batch = Inr (0, w')
         \<and> index w' = Loadable data
         \<and> map_of data ''images''
             = Some (TArray [TTable [(''file'', TString ''LOP25-0001.jpeg'')],
                             TTable [(''file'', TString ''LOP25-0002.jpeg'')],
                             TTable [(''file'', TString ''LOP25-0003.jpeg'')]]))"
proof -
  let ?src = "[(''c.jpg'', File ''C''), (''notes.txt'', File ''n'')]"
  have g: "get_image_files (map fst ?src) = [''c.jpg'']"
    by code_simp
  have 1: "source_dir second_batch = Directory ?src"
    by (simp add: second_batch_def)
  have 2: "get_image_files (map fst ?src) \<noteq> []" using g by simp
  have 3: "copies_succeed all_succeed ?src (get_image_files (map fst ?src))"
    unfolding g by (simp add: copies_succeed_def all_succeed_def)
  have 4: "truthy (index_file index_args) = Some ''index.toml''"
    by (simp add: truthy_def index_args_def)
  have 5: "entries_of (fst (load_index (index second_batch)))
      = Some [TTable [(''file'', TString ''LOP25-0001.jpeg'')],
              TTable [(''file'', TString ''LOP25-0002.jpeg'')]]"
    by (simp add: entries_of_def load_index_def second_batch_def)
  have 6: "index_write all_succeed = Written"
    by (simp add: all_succeed_def)
  have s: "find_highest_serial_number (Some (mkdir (images second_batch))) = 2"
    unfolding second_batch_def mkdir_def by code_simp
  have n: "map new_name [2 + 1 ..< 2 + 1 + length [''c.jpg'']] = [''LOP25-0003.jpeg'']"
    by (simp add: name_eval upt_rec)
  show ?thesis
    using main_appends_admitted_to_index [OF 1 2 3 4 5 6] 1 3 4 6
    unfolding s g n by simp
qed

lemma scan_empty: "find_highest_serial_number (Some []) = 0"
  by (simp add: find_highest_serial_number_def)

lemma names_0001:
  "fmt04d 0 = ''0000''" "new_name (Suc 0) = ''LOP25-0001.jpeg''"
  by (simp_all add: name_eval)

text \<open>
  Claim C4 as the specification words it names the collection \<^verbatim>\<open>entries\<close>.  A first run
  with one image and an index path that does not exist yet leaves an index document with
  the key \<^verbatim>\<open>images\<close> and no key \<^verbatim>\<open>entries\<close>.
\<close>

theorem index_key_counterexample:
  "main all_succeed index_args first_batch
     = Inr (0, \<lparr>source_dir = Directory [(''a.jpg'', File ''A'')],
                images = Some [(''LOP25-0001.jpeg'', File ''A'')],
                thumbs = Some [(''LOP25-0001.jpeg'', File ''small'')],
                index = Loadable
                  [(''images'', TArray [TTable [(''file'', TString ''LOP25-0001.jpeg'')]])],
                stdout = [''Found highest serial number: 0000'',
                          ''Found 1 image files to import'',
                          ''Imported: a.jpg -> LOP25-0001.jpeg (with thumbnail)'',
                          ''Updated TOML index file: index.toml'',
                          ''Successfully imported 1 images'']\<rparr>)
   \<and> map_of [(''images'', TArray [TTable [(''file'', TString ''LOP25-0001.jpeg'')]])]
        ''entries'' = None"
  by (simp add: main_def Let_def mkdir_def scan_empty enumerate_one
      import_images_def import_one_def copy2_def after_copy_def stamp_if_requested_def
      truthy_def create_thumbnail_def write_file_def all_succeed_def index_args_def
      first_batch_def names_0001 names_9999 update_toml_index_def merged_index_def
      load_index_def ensure_images_def append_image_def)

end
